theory Spec2Isabelle
  imports Complex_Main
begin

section \<open>Errors (lib/error.ts)\<close>

text \<open>
  A JavaScript string is a sequence of UTF-16 code units. A HOL \<open>char\<close> stands
  for a code unit below 256, so the strings of the model are the strings of
  the Latin-1 range; on them \<open>toLowerCase\<close>, \<open>trim\<close> and the character
  class \<open>\s\<close> are those of the language. Numbers that the code uses as
  counters and millisecond clock readings are \<open>int\<close>; the delays of the
  retrier are \<open>real\<close> (the doubles of the runtime are idealised as exact
  reals).
\<close>

datatype ErrorCode =
    CONFIG_ERROR
  | VALIDATION_ERROR
  | JIRA_API_ERROR
  | CONFLUENCE_API_ERROR
  | NETWORK_ERROR
  | CIRCUIT_BREAKER_OPEN
  | UNKNOWN_ERROR

text \<open>The \<open>data\<close> member of an HTTP error response, with the members that the
  Jira and the Confluence normalizers read.\<close>

record response_data =
  errors :: "(string \<times> string) list option"
  errorMessages :: "string list option"
  data_message :: "string option"
  data_reason :: "string option"

record response =
  response_status :: "int option"
  statusText :: "string option"
  data :: "response_data option"

text \<open>The \<open>message\<close> property of an object: absent (\<open>'message' in error\<close> is
  false), present with a nullish value, or present with a string.\<close>

datatype message_prop = NoMessage | NullishMessage | Message string

text \<open>An object that is not null and not an \<open>AppError\<close>.\<close>

record error_object =
  instanceofError :: bool
  message_of :: message_prop
  code_of :: "string option"
  status_of :: "int option"
  response_of :: "response option"

datatype prim = PUndefined | PNull | PString string | PNumber int | PBoolean bool

text \<open>A thrown value (\<open>unknown\<close> in the source): an instance of \<open>AppError\<close>,
  another object, or a primitive.\<close>

datatype thrown =
    AppError (code: ErrorCode) (message: string) (statusCode: "int option")
      (context_of: "(string \<times> string) list option") (cause: "thrown option")
  | Object error_object
  | Primitive prim

definition jiraApi :: "string \<Rightarrow> int option \<Rightarrow> thrown option \<Rightarrow> thrown" where
  "jiraApi m st c = AppError JIRA_API_ERROR m st None c"

definition confluenceApi :: "string \<Rightarrow> int option \<Rightarrow> thrown option \<Rightarrow> thrown" where
  "confluenceApi m st c = AppError CONFLUENCE_API_ERROR m st None c"

definition circuitBreakerOpen :: "string \<Rightarrow> thrown" where
  "circuitBreakerOpen service =
     AppError CIRCUIT_BREAKER_OPEN
       (''Circuit breaker is open for '' @ service @ ''. Service is temporarily unavailable.'')
       None (Some [(''service'', service)]) None"

definition unknown :: "string \<Rightarrow> thrown option \<Rightarrow> thrown" where
  "unknown m c = AppError UNKNOWN_ERROR m None None c"

fun isAppError :: "thrown \<Rightarrow> bool" where
  "isAppError (AppError _ _ _ _ _) = True"
| "isAppError _ = False"

section \<open>Circuit breaker (lib/core/circuitBreaker.ts)\<close>

text \<open>
  An asynchronous operation is a function on the state of the world outside the
  wrapper: it returns its rejection (\<open>Inl\<close>) or its value (\<open>Inr\<close>) and the new
  world. Callbacks that return nothing are world transformers.
\<close>

type_synonym ('w, 'a) operation = "'w \<Rightarrow> (thrown + 'a) \<times> 'w"

datatype CircuitBreakerState = Closed | Open | HalfOpen

record CircuitState =
  state :: CircuitBreakerState
  failureCount :: int
  lastFailureTime :: int
  halfOpenAttempts :: int

record 'w CircuitBreakerOptions =
  failureThreshold :: int
  resetTimeoutMs :: int
  halfOpenMaxAttempts :: int
  shouldTrip :: "thrown \<Rightarrow> bool"
  onStateChange :: "(CircuitBreakerState \<Rightarrow> CircuitBreakerState \<Rightarrow> string \<Rightarrow> 'w \<Rightarrow> 'w) option"

definition DEFAULT_FAILURE_THRESHOLD :: int where "DEFAULT_FAILURE_THRESHOLD = 5"
definition DEFAULT_RESET_TIMEOUT_MS :: int where "DEFAULT_RESET_TIMEOUT_MS = 30000"
definition DEFAULT_HALF_OPEN_MAX_ATTEMPTS :: int where "DEFAULT_HALF_OPEN_MAX_ATTEMPTS = 1"

text \<open>The options of a call that passes \<open>{}\<close>.\<close>

definition defaultCircuitBreakerOptions :: "'w CircuitBreakerOptions" where
  "defaultCircuitBreakerOptions =
     \<lparr> failureThreshold = DEFAULT_FAILURE_THRESHOLD,
       resetTimeoutMs = DEFAULT_RESET_TIMEOUT_MS,
       halfOpenMaxAttempts = DEFAULT_HALF_OPEN_MAX_ATTEMPTS,
       shouldTrip = (\<lambda>_. True),
       onStateChange = None \<rparr>"

type_synonym circuits = "string \<rightharpoonup> CircuitState"

definition newCircuit :: CircuitState where
  "newCircuit = \<lparr> state = Closed, failureCount = 0, lastFailureTime = 0, halfOpenAttempts = 0 \<rparr>"

text \<open>\<open>getCircuit\<close> creates the entry on first use; it returns the circuit and
  the registry that holds it.\<close>

definition getCircuit :: "circuits \<Rightarrow> string \<Rightarrow> CircuitState \<times> circuits" where
  "getCircuit cs serviceName =
     (case cs serviceName of
        Some circuit \<Rightarrow> (circuit, cs)
      | None \<Rightarrow> (newCircuit, cs(serviceName \<mapsto> newCircuit)))"

definition transitionTo ::
  "CircuitState \<Rightarrow> CircuitBreakerState \<Rightarrow> string
     \<Rightarrow> (CircuitBreakerState \<Rightarrow> CircuitBreakerState \<Rightarrow> string \<Rightarrow> 'w \<Rightarrow> 'w) option
     \<Rightarrow> 'w \<Rightarrow> CircuitState \<times> 'w" where
  "transitionTo circuit newState serviceName hook w =
     (if state circuit = newState then (circuit, w)
      else
        let oldState = state circuit;
            c1 = circuit\<lparr> state := newState \<rparr>;
            c2 = (if newState = Closed then c1\<lparr> failureCount := 0, halfOpenAttempts := 0 \<rparr>
                  else if newState = HalfOpen then c1\<lparr> halfOpenAttempts := 0 \<rparr>
                  else c1)
        in (c2, case hook of None \<Rightarrow> w | Some h \<Rightarrow> h oldState newState serviceName w))"

text \<open>
  The part of \<open>withCircuitBreaker\<close> that runs before \<open>fn\<close> is invoked (lines
  81 to 95), on the circuit object of the service and the clock reading \<open>now\<close>
  taken on entry. \<open>Inl\<close> is the error thrown without invoking \<open>fn\<close>.
\<close>

definition beforeCall ::
  "string \<Rightarrow> int \<Rightarrow> 'w CircuitBreakerOptions \<Rightarrow> CircuitState \<Rightarrow> 'w
     \<Rightarrow> (thrown + unit) \<times> CircuitState \<times> 'w" where
  "beforeCall serviceName now opts circuit w =
     (case (if state circuit = Open
            then (if now - lastFailureTime circuit \<ge> resetTimeoutMs opts
                  then Inr (transitionTo circuit HalfOpen serviceName (onStateChange opts) w)
                  else Inl (circuitBreakerOpen serviceName))
            else Inr (circuit, w)) of
        Inl e \<Rightarrow> (Inl e, circuit, w)
      | Inr (c1, w1) \<Rightarrow>
          (if state c1 = HalfOpen \<and> halfOpenAttempts c1 \<ge> halfOpenMaxAttempts opts
           then (Inl (circuitBreakerOpen serviceName), c1, w1)
           else if state c1 = HalfOpen
           then (Inr (), c1\<lparr> halfOpenAttempts := halfOpenAttempts c1 + 1 \<rparr>, w1)
           else (Inr (), c1, w1)))"

text \<open>The part that runs once \<open>fn\<close> has settled with \<open>r\<close> (lines 97 to 122).\<close>

definition afterCall ::
  "string \<Rightarrow> int \<Rightarrow> 'w CircuitBreakerOptions \<Rightarrow> (thrown + 'a) \<Rightarrow> CircuitState \<Rightarrow> 'w
     \<Rightarrow> (thrown + 'a) \<times> CircuitState \<times> 'w" where
  "afterCall serviceName now opts r circuit w =
     (case r of
        Inr result \<Rightarrow>
          (if state circuit = HalfOpen
           then (let (c, w') = transitionTo circuit Closed serviceName (onStateChange opts) w
                 in (Inr result, c, w'))
           else if state circuit = Closed
           then (Inr result, circuit\<lparr> failureCount := 0 \<rparr>, w)
           else (Inr result, circuit, w))
      | Inl error \<Rightarrow>
          (if \<not> shouldTrip opts error then (Inl error, circuit, w)
           else
             let c1 = circuit\<lparr> failureCount := failureCount circuit + 1,
                               lastFailureTime := now \<rparr>
             in if state c1 = HalfOpen
                then (let (c, w') = transitionTo c1 Open serviceName (onStateChange opts) w
                      in (Inl error, c, w'))
                else if failureCount c1 \<ge> failureThreshold opts
                then (let (c, w') = transitionTo c1 Open serviceName (onStateChange opts) w
                      in (Inl error, c, w'))
                else (Inl error, c1, w)))"

text \<open>
  A whole call whose \<open>fn\<close> does not touch the registry: the circuit object is
  looked up, the entry part runs, \<open>fn\<close> is invoked unless the entry part threw,
  and the exit part runs on the same object.
\<close>

definition withCircuitBreaker ::
  "circuits \<Rightarrow> string \<Rightarrow> int \<Rightarrow> ('w, 'a) operation \<Rightarrow> 'w CircuitBreakerOptions \<Rightarrow> 'w
     \<Rightarrow> (thrown + 'a) \<times> circuits \<times> 'w" where
  "withCircuitBreaker cs serviceName now fn opts w =
     (let (circuit, cs1) = getCircuit cs serviceName
      in case beforeCall serviceName now opts circuit w of
           (Inl e, c1, w1) \<Rightarrow> (Inl e, cs1(serviceName \<mapsto> c1), w1)
         | (Inr _, c1, w1) \<Rightarrow>
             (let (r, w2) = fn w1;
                  (r', c2, w3) = afterCall serviceName now opts r c1 w2
              in (r', cs1(serviceName \<mapsto> c2), w3)))"


definition resetCircuit :: "circuits \<Rightarrow> string \<Rightarrow> circuits" where
  "resetCircuit cs serviceName = cs(serviceName := None)"

definition resetAllCircuits :: "circuits \<Rightarrow> circuits" where
  "resetAllCircuits cs = Map.empty"

subsection \<open>Vocabulary of the statements about the breaker\<close>

text \<open>A sequence of calls for one service, each awaited before the next is
  made: every call has its clock reading, its function and its options.\<close>

fun runCalls ::
  "circuits \<Rightarrow> string \<Rightarrow> (int \<times> ('w, 'a) operation \<times> 'w CircuitBreakerOptions) list \<Rightarrow> 'w
     \<Rightarrow> circuits \<times> 'w" where
  "runCalls cs serviceName [] w = (cs, w)"
| "runCalls cs serviceName ((now, fn, opts) # rest) w =
     (case withCircuitBreaker cs serviceName now fn opts w of
        (_, cs', w') \<Rightarrow> runCalls cs' serviceName rest w')"


text \<open>A call whose function rejects whenever it is invoked, with an error that
  does not trip the breaker.\<close>

definition nonTrippingFailure :: "int \<times> ('w, 'a) operation \<times> 'w CircuitBreakerOptions \<Rightarrow> bool" where
  "nonTrippingFailure call =
     (case call of (now, fn, opts) \<Rightarrow>
        (\<forall>w. case fn w of (Inl e, _) \<Rightarrow> \<not> shouldTrip opts e | (Inr _, _) \<Rightarrow> False))"


text \<open>An operation that counts its own invocations beside the world.\<close>

definition counting :: "('w, 'a) operation \<Rightarrow> ('w \<times> nat, 'a) operation" where
  "counting fn = (\<lambda>(w, n). case fn w of (r, w') \<Rightarrow> (r, (w', Suc n)))"

subsection \<open>Calls under a clock\<close>




section \<open>Retrier (lib/core/retry.ts)\<close>

record 'w RetryOptions =
  maxAttempts :: int
  baseDelayMs :: real
  maxDelayMs :: real
  shouldRetry :: "thrown \<Rightarrow> int \<Rightarrow> bool"
  onRetry :: "(thrown \<Rightarrow> int \<Rightarrow> real \<Rightarrow> 'w \<Rightarrow> 'w) option"

definition DEFAULT_MAX_ATTEMPTS :: int where "DEFAULT_MAX_ATTEMPTS = 3"
definition DEFAULT_BASE_DELAY_MS :: real where "DEFAULT_BASE_DELAY_MS = 1000"
definition DEFAULT_MAX_DELAY_MS :: real where "DEFAULT_MAX_DELAY_MS = 30000"

definition defaultRetryOptions :: "'w RetryOptions" where
  "defaultRetryOptions =
     \<lparr> maxAttempts = DEFAULT_MAX_ATTEMPTS,
       baseDelayMs = DEFAULT_BASE_DELAY_MS,
       maxDelayMs = DEFAULT_MAX_DELAY_MS,
       shouldRetry = (\<lambda>_ _. True),
       onRetry = None \<rparr>"

text \<open>What the retrier takes from the runtime: \<open>Math.random\<close>, a draw that
  changes the world, and \<open>sleep\<close>, which lets time pass.\<close>

record 'w runtime =
  random :: "'w \<Rightarrow> real \<times> 'w"
  sleep :: "real \<Rightarrow> 'w \<Rightarrow> 'w"

text \<open>The argument of \<open>Math.min\<close> in \<open>calculateBackoff\<close>, for the value \<open>r\<close>
  that \<open>Math.random()\<close> returned.\<close>

definition uncappedDelay :: "int \<Rightarrow> real \<Rightarrow> real \<Rightarrow> real" where
  "uncappedDelay attempt baseDelay r =
     (let exponentialDelay = baseDelay * 2 powi (attempt - 1);
          jitter = r * 0.3 * exponentialDelay
      in exponentialDelay + jitter)"

definition calculateBackoff :: "int \<Rightarrow> real \<Rightarrow> real \<Rightarrow> real \<Rightarrow> real" where
  "calculateBackoff attempt baseDelay maxDelay r = min (uncappedDelay attempt baseDelay r) maxDelay"

text \<open>The \<open>for\<close> loop of \<open>withRetry\<close> with its \<open>attempt\<close> counter and
  \<open>lastError\<close>; leaving the loop throws \<open>lastError\<close>.\<close>

function withRetry_loop ::
  "'w runtime \<Rightarrow> ('w, 'a) operation \<Rightarrow> 'w RetryOptions \<Rightarrow> int \<Rightarrow> thrown \<Rightarrow> 'w
     \<Rightarrow> (thrown + 'a) \<times> 'w" where
  "withRetry_loop rt fn opts attempt lastError w =
     (if attempt \<le> maxAttempts opts
      then (case fn w of
              (Inr result, w1) \<Rightarrow> (Inr result, w1)
            | (Inl error, w1) \<Rightarrow>
                (if attempt \<ge> maxAttempts opts then (Inl error, w1)
                 else if \<not> shouldRetry opts error attempt then (Inl error, w1)
                 else
                   let (r, w2) = random rt w1;
                       delayMs = calculateBackoff attempt (baseDelayMs opts) (maxDelayMs opts) r;
                       w3 = (case onRetry opts of None \<Rightarrow> w2 | Some h \<Rightarrow> h error attempt delayMs w2);
                       w4 = sleep rt delayMs w3
                   in withRetry_loop rt fn opts (attempt + 1) error w4))
      else (Inl lastError, w))"
  by pat_completeness auto
termination
  by (relation "measure (\<lambda>(rt, fn, opts, attempt, lastError, w). nat (maxAttempts opts + 1 - attempt))") auto

declare withRetry_loop.simps [simp del]

definition withRetry :: "'w runtime \<Rightarrow> ('w, 'a) operation \<Rightarrow> 'w RetryOptions \<Rightarrow> 'w \<Rightarrow> (thrown + 'a) \<times> 'w" where
  "withRetry rt fn opts w = withRetry_loop rt fn opts 1 (Primitive PUndefined) w"

subsection \<open>Vocabulary of the statements about the retrier\<close>

text \<open>An operation that appends the outcome of each of its invocations to a log
  kept beside the world; the runtime and the callbacks act on the world and
  leave the log alone.\<close>

definition logging :: "('w, 'a) operation \<Rightarrow> ('w \<times> (thrown + 'a) list, 'a) operation" where
  "logging fn = (\<lambda>(w, log). case fn w of (r, w') \<Rightarrow> (r, (w', log @ [r])))"

definition besideLog :: "('w \<Rightarrow> 'w) \<Rightarrow> 'w \<times> 'l \<Rightarrow> 'w \<times> 'l" where
  "besideLog f = (\<lambda>(w, log). (f w, log))"

definition liftRuntime :: "'w runtime \<Rightarrow> ('w \<times> 'l) runtime" where
  "liftRuntime rt =
     \<lparr> random = (\<lambda>(w, log). case random rt w of (r, w') \<Rightarrow> (r, (w', log))),
       sleep = (\<lambda>d. besideLog (sleep rt d)) \<rparr>"

definition liftRetryOptions :: "'w RetryOptions \<Rightarrow> ('w \<times> 'l) RetryOptions" where
  "liftRetryOptions opts =
     \<lparr> maxAttempts = maxAttempts opts,
       baseDelayMs = baseDelayMs opts,
       maxDelayMs = maxDelayMs opts,
       shouldRetry = shouldRetry opts,
       onRetry = map_option (\<lambda>h error attempt delayMs. besideLog (h error attempt delayMs)) (onRetry opts) \<rparr>"

section \<open>Strings\<close>

text \<open>
  \<open>String.prototype.toLowerCase\<close> on one code unit below 256: the capital
  letters are \<open>A\<close> to \<open>Z\<close> (65 to 90) and the accented capitals 192 to 222
  without the multiplication sign 215; each has its small letter 32 places
  further.
\<close>

definition lowerChar :: "char \<Rightarrow> char" where
  "lowerChar c =
     (let n = (of_char c :: nat)
      in if (65 \<le> n \<and> n \<le> 90) \<or> (192 \<le> n \<and> n \<le> 222 \<and> n \<noteq> 215)
         then char_of (n + 32)
         else c)"

definition toLowerCase :: "string \<Rightarrow> string" where
  "toLowerCase s = map lowerChar s"

definition startsWith :: "string \<Rightarrow> string \<Rightarrow> bool" where
  "startsWith s p = (take (length p) s = p)"

fun includesString :: "string \<Rightarrow> string \<Rightarrow> bool" where
  "includesString [] sub = (sub = [])"
| "includesString (c # cs) sub = (startsWith (c # cs) sub \<or> includesString cs sub)"

text \<open>White space and line terminators below 256, as \<open>trim\<close> and \<open>\s\<close>
  take them: tab, line feed, vertical tab, form feed, carriage return, space
  and the no-break space.\<close>

definition isWhiteSpace :: "char \<Rightarrow> bool" where
  "isWhiteSpace c =
     (c \<in> set [CHR 0x09, CHR 0x0A, CHR 0x0B, CHR 0x0C, CHR 0x0D, CHR '' '', CHR 0xA0])"

definition trim :: "string \<Rightarrow> string" where
  "trim s = rev (dropWhile isWhiteSpace (rev (dropWhile isWhiteSpace s)))"

fun join :: "string \<Rightarrow> string list \<Rightarrow> string" where
  "join sep [] = []"
| "join sep [x] = x"
| "join sep (x # y # ys) = x @ sep @ join sep (y # ys)"

text \<open>\<open>s.split(',')\<close>: the pieces between the commas, one piece more than
  there are commas.\<close>

fun splitComma :: "string \<Rightarrow> string list" where
  "splitComma [] = [[]]"
| "splitComma (c # cs) =
     (if c = CHR '','' then [] # splitComma cs
      else (case splitComma cs of p # ps \<Rightarrow> (c # p) # ps | [] \<Rightarrow> [[c]]))"

section \<open>Property access on thrown values\<close>

fun errorCodeString :: "ErrorCode \<Rightarrow> string" where
  "errorCodeString CONFIG_ERROR = ''CONFIG_ERROR''"
| "errorCodeString VALIDATION_ERROR = ''VALIDATION_ERROR''"
| "errorCodeString JIRA_API_ERROR = ''JIRA_API_ERROR''"
| "errorCodeString CONFLUENCE_API_ERROR = ''CONFLUENCE_API_ERROR''"
| "errorCodeString NETWORK_ERROR = ''NETWORK_ERROR''"
| "errorCodeString CIRCUIT_BREAKER_OPEN = ''CIRCUIT_BREAKER_OPEN''"
| "errorCodeString UNKNOWN_ERROR = ''UNKNOWN_ERROR''"

text \<open>\<open>typeof error === 'object' && error !== null\<close>.\<close>

fun isNonNullObject :: "thrown \<Rightarrow> bool" where
  "isNonNullObject (Primitive _) = False"
| "isNonNullObject _ = True"

text \<open>\<open>error instanceof Error\<close>; \<open>AppError\<close> extends \<open>Error\<close>.\<close>

fun isError :: "thrown \<Rightarrow> bool" where
  "isError (AppError _ _ _ _ _) = True"
| "isError (Object obj) = instanceofError obj"
| "isError (Primitive _) = False"

fun messageProp :: "thrown \<Rightarrow> message_prop" where
  "messageProp (AppError _ m _ _ _) = Message m"
| "messageProp (Object obj) = message_of obj"
| "messageProp (Primitive _) = NoMessage"

fun codeProp :: "thrown \<Rightarrow> string option" where
  "codeProp (AppError c _ _ _ _) = Some (errorCodeString c)"
| "codeProp (Object obj) = code_of obj"
| "codeProp (Primitive _) = None"

text \<open>An \<open>AppError\<close> has \<open>statusCode\<close>, and neither \<open>status\<close> nor
  \<open>response\<close>.\<close>

fun statusProp :: "thrown \<Rightarrow> int option" where
  "statusProp (Object obj) = status_of obj"
| "statusProp _ = None"

fun responseProp :: "thrown \<Rightarrow> response option" where
  "responseProp (Object obj) = response_of obj"
| "responseProp _ = None"

text \<open>\<open>error.response?.status ?? error.status\<close>.\<close>

definition responseStatusOrStatus :: "thrown \<Rightarrow> int option" where
  "responseStatusOrStatus error =
     (case Option.bind (responseProp error) response_status of
        Some s \<Rightarrow> Some s
      | None \<Rightarrow> statusProp error)"

section \<open>Retryability (lib/core/retry.ts)\<close>

text \<open>The message of an \<open>Error\<close> instance is a string; a nullish one is read
  here as the empty string.\<close>

definition isNetworkError :: "thrown \<Rightarrow> bool" where
  "isNetworkError error =
     (if isError error then
        (let networkCodes = [''ECONNRESET'', ''ECONNREFUSED'', ''ETIMEDOUT'', ''ENOTFOUND'', ''EAI_AGAIN''];
             networkMessages = [''network error'', ''socket hang up'', ''connection refused''];
             msg = (case messageProp error of Message m \<Rightarrow> m | _ \<Rightarrow> [])
         in if (case codeProp error of Some c \<Rightarrow> c \<noteq> [] \<and> c \<in> set networkCodes | None \<Rightarrow> False)
            then True
            else if list_ex (\<lambda>m. includesString (toLowerCase msg) m) networkMessages then True
            else False)
      else False)"

definition isRetryableStatusCode :: "int option \<Rightarrow> bool" where
  "isRetryableStatusCode sc =
     (case sc of
        None \<Rightarrow> False
      | Some s \<Rightarrow> s = 429 \<or> s = 503 \<or> s = 502 \<or> s = 504)"

definition getStatusCode :: "thrown \<Rightarrow> int option" where
  "getStatusCode error =
     (if \<not> isNonNullObject error then None else responseStatusOrStatus error)"

definition isRetryableError :: "thrown \<Rightarrow> bool" where
  "isRetryableError error =
     (if isNetworkError error then True
      else if isRetryableStatusCode (getStatusCode error) then True
      else False)"

section \<open>Jira client (lib/jira/client/JiraClient.ts)\<close>

definition JIRA_SERVICE_NAME :: string where "JIRA_SERVICE_NAME = ''jira''"

definition isJiraErrorResponse :: "thrown \<Rightarrow> bool" where
  "isJiraErrorResponse error = (isNonNullObject error \<and> messageProp error \<noteq> NoMessage)"

definition getJiraErrorStatus :: "thrown \<Rightarrow> int option" where
  "getJiraErrorStatus error =
     (if \<not> isJiraErrorResponse error then None else responseStatusOrStatus error)"

definition isRetryableJiraError :: "thrown \<Rightarrow> bool" where
  "isRetryableJiraError error =
     (if isRetryableError error then True
      else
        let status = getJiraErrorStatus error
        in if status = Some 429 \<or> status = Some 503 \<or> status = Some 502 \<or> status = Some 504
           then True
           else False)"

definition normalizeJiraError :: "thrown \<Rightarrow> thrown" where
  "normalizeJiraError error =
     (if isAppError error then error
      else if \<not> isJiraErrorResponse error then unknown ''Unknown Jira error'' (Some error)
      else
        let status = getJiraErrorStatus error;
            responseData = Option.bind (responseProp error) data;
            messages1 = (case Option.bind responseData errorMessages of
                           Some ms \<Rightarrow> (if ms \<noteq> [] then ms else [])
                         | None \<Rightarrow> []);
            messages2 = (case Option.bind responseData errors of
                           Some es \<Rightarrow> map (\<lambda>(field, msg). field @ '': '' @ msg) es
                         | None \<Rightarrow> []);
            messages = messages1 @ messages2;
            message = (if messages \<noteq> [] then join ''; '' messages
                       else (case messageProp error of Message m \<Rightarrow> m | _ \<Rightarrow> ''Jira API error''))
        in jiraApi message status (Some error))"

section \<open>Confluence client (lib/confluence/client/ConfluenceClient.ts)\<close>

definition CONFLUENCE_SERVICE_NAME :: string where "CONFLUENCE_SERVICE_NAME = ''confluence''"

definition isConfluenceErrorResponse :: "thrown \<Rightarrow> bool" where
  "isConfluenceErrorResponse error = (isNonNullObject error \<and> messageProp error \<noteq> NoMessage)"

definition getConfluenceErrorStatus :: "thrown \<Rightarrow> int option" where
  "getConfluenceErrorStatus error =
     (if \<not> isConfluenceErrorResponse error then None else responseStatusOrStatus error)"

definition isRetryableConfluenceError :: "thrown \<Rightarrow> bool" where
  "isRetryableConfluenceError error =
     (if isRetryableError error then True
      else
        let status = getConfluenceErrorStatus error
        in if status = Some 429 \<or> status = Some 503 \<or> status = Some 502 \<or> status = Some 504
           then True
           else False)"

definition normalizeConfluenceError :: "thrown \<Rightarrow> thrown" where
  "normalizeConfluenceError error =
     (if isAppError error then error
      else if \<not> isConfluenceErrorResponse error then unknown ''Unknown Confluence error'' (Some error)
      else
        let status = getConfluenceErrorStatus error;
            responseData = Option.bind (responseProp error) data;
            message =
              (case Option.bind responseData data_message of
                 Some m \<Rightarrow> m
               | None \<Rightarrow>
                   (case Option.bind responseData data_reason of
                      Some m \<Rightarrow> m
                    | None \<Rightarrow>
                        (case messageProp error of Message m \<Rightarrow> m | _ \<Rightarrow> ''Confluence API error'')))
        in confluenceApi message status (Some error))"

section \<open>Client operations\<close>

subsection \<open>\<open>JiraClient\<close>\<close>

text \<open>The options that the constructor of \<open>JiraClient\<close> uses where the
  configuration overrides nothing.\<close>

definition jiraRetryOptions :: "'w RetryOptions" where
  "jiraRetryOptions =
     \<lparr> maxAttempts = 3, baseDelayMs = 1000, maxDelayMs = 10000,
       shouldRetry = (\<lambda>error attempt. isRetryableJiraError error), onRetry = None \<rparr>"

definition jiraCircuitBreakerOptions :: "'w CircuitBreakerOptions" where
  "jiraCircuitBreakerOptions =
     \<lparr> failureThreshold = 5, resetTimeoutMs = 30000,
       halfOpenMaxAttempts = DEFAULT_HALF_OPEN_MAX_ATTEMPTS,
       shouldTrip = isRetryableJiraError, onStateChange = None \<rparr>"

text \<open>\<open>JiraClient.execute\<close>, with the options of the client, the registry of
  circuits and the clock reading of the breaker as parameters.\<close>

definition JiraClient_execute ::
  "'w runtime \<Rightarrow> 'w RetryOptions \<Rightarrow> 'w CircuitBreakerOptions \<Rightarrow> circuits \<Rightarrow> int
     \<Rightarrow> ('w, 'a) operation \<Rightarrow> 'w \<Rightarrow> (thrown + 'a) \<times> circuits \<times> 'w" where
  "JiraClient_execute rt retryOpts breakerOpts cs now operation w =
     (case withCircuitBreaker cs JIRA_SERVICE_NAME now (withRetry rt operation retryOpts) breakerOpts w of
        (Inr result, cs', w') \<Rightarrow> (Inr result, cs', w')
      | (Inl error, cs', w') \<Rightarrow> (Inl (normalizeJiraError error), cs', w'))"

record SearchParams =
  jql :: string
  maxResults :: "int option"
  startAt :: "int option"
  fields_param :: "(string + string list) option"
  expand_param :: "(string + string list) option"

record search_request =
  request_jql :: string
  request_maxResults :: "int option"
  request_startAt :: "int option"
  request_fields :: "string list option"
  request_expand :: "string list option"

text \<open>\<open>Array.isArray(x) ? x : x?.split(',')\<close>.\<close>

definition arrayOrSplit :: "(string + string list) option \<Rightarrow> string list option" where
  "arrayOrSplit x =
     (case x of
        Some (Inr xs) \<Rightarrow> Some xs
      | Some (Inl s) \<Rightarrow> Some (splitComma s)
      | None \<Rightarrow> None)"

text \<open>What \<open>searchForIssuesUsingJql\<close> resolves with: a string, or a value of
  any other type.\<close>

datatype 'r sdk_result = StringResult string | OtherResult 'r

text \<open>The argument that \<open>search\<close> passes to \<open>searchForIssuesUsingJql\<close>.\<close>

definition searchRequest :: "SearchParams \<Rightarrow> search_request" where
  "searchRequest params =
     \<lparr> request_jql = jql params, request_maxResults = maxResults params,
       request_startAt = startAt params,
       request_fields = arrayOrSplit (fields_param params),
       request_expand = arrayOrSplit (expand_param params) \<rparr>"

text \<open>The function that \<open>search\<close> hands to \<open>execute\<close>. \<open>parse\<close> stands for
  \<open>JSON.parse\<close>: it returns the value or the error it throws.\<close>

definition searchOperation ::
  "(string \<Rightarrow> thrown + 'r) \<Rightarrow> (search_request \<Rightarrow> ('w, 'r sdk_result) operation) \<Rightarrow> SearchParams
     \<Rightarrow> ('w, 'r) operation" where
  "searchOperation parse searchFn params w =
     (case searchFn (searchRequest params) w of
        (Inl error, w1) \<Rightarrow> (Inl error, w1)
      | (Inr (StringResult s), w1) \<Rightarrow>
          (if startsWith (trim s) ''<''
           then (Inl (jiraApi
                   ''Jira search returned HTML (likely a login page). Verify authentication credentials.''
                   (Some 401) None), w1)
           else (case parse s of
                   Inr v \<Rightarrow> (Inr v, w1)
                 | Inl parseError \<Rightarrow>
                     (Inl (jiraApi ''Unexpected Jira search response format'' None (Some parseError)), w1)))
      | (Inr (OtherResult v), w1) \<Rightarrow> (Inr v, w1))"

definition JiraClient_search ::
  "'w runtime \<Rightarrow> 'w RetryOptions \<Rightarrow> 'w CircuitBreakerOptions \<Rightarrow> circuits \<Rightarrow> int
     \<Rightarrow> (string \<Rightarrow> thrown + 'r) \<Rightarrow> (search_request \<Rightarrow> ('w, 'r sdk_result) operation) \<Rightarrow> SearchParams
     \<Rightarrow> 'w \<Rightarrow> (thrown + 'r) \<times> circuits \<times> 'w" where
  "JiraClient_search rt retryOpts breakerOpts cs now parse searchFn params w =
     JiraClient_execute rt retryOpts breakerOpts cs now (searchOperation parse searchFn params) w"

subsection \<open>\<open>ConfluenceClient\<close>\<close>

definition confluenceRetryOptions :: "'w RetryOptions" where
  "confluenceRetryOptions =
     \<lparr> maxAttempts = 3, baseDelayMs = 1000, maxDelayMs = 10000,
       shouldRetry = (\<lambda>error attempt. isRetryableConfluenceError error), onRetry = None \<rparr>"

definition confluenceCircuitBreakerOptions :: "'w CircuitBreakerOptions" where
  "confluenceCircuitBreakerOptions =
     \<lparr> failureThreshold = 5, resetTimeoutMs = 30000,
       halfOpenMaxAttempts = DEFAULT_HALF_OPEN_MAX_ATTEMPTS,
       shouldTrip = isRetryableConfluenceError, onStateChange = None \<rparr>"

definition ConfluenceClient_execute ::
  "'w runtime \<Rightarrow> 'w RetryOptions \<Rightarrow> 'w CircuitBreakerOptions \<Rightarrow> circuits \<Rightarrow> int
     \<Rightarrow> ('w, 'a) operation \<Rightarrow> 'w \<Rightarrow> (thrown + 'a) \<times> circuits \<times> 'w" where
  "ConfluenceClient_execute rt retryOpts breakerOpts cs now operation w =
     (case withCircuitBreaker cs CONFLUENCE_SERVICE_NAME now (withRetry rt operation retryOpts) breakerOpts w of
        (Inr result, cs', w') \<Rightarrow> (Inr result, cs', w')
      | (Inl error, cs', w') \<Rightarrow> (Inl (normalizeConfluenceError error), cs', w'))"

record GetContentParams =
  spaceKey :: string
  title :: string
  limit :: "int option"
  content_expand :: "string list option"

record content_request =
  request_spaceKey :: string
  request_title :: string
  request_limit :: int
  request_content_expand :: "string list"

text \<open>The argument that \<open>getPageByTitle\<close> passes to \<open>getContent\<close>.\<close>

definition contentRequest :: "GetContentParams \<Rightarrow> content_request" where
  "contentRequest params =
     (let expand = (case content_expand params of Some e \<Rightarrow> e | None \<Rightarrow> [''body.storage'', ''version''])
      in \<lparr> request_spaceKey = spaceKey params, request_title = title params,
           request_limit = (case limit params of Some l \<Rightarrow> l | None \<Rightarrow> 1),
           request_content_expand = expand \<rparr>)"

text \<open>The function that \<open>getPageByTitle\<close> hands to \<open>execute\<close>; \<open>getContent\<close>
  resolves with the \<open>results\<close> list; \<open>None\<close> is \<open>null\<close>.\<close>

definition getPageByTitleOperation ::
  "(content_request \<Rightarrow> ('w, 'p list) operation) \<Rightarrow> GetContentParams \<Rightarrow> ('w, 'p option) operation" where
  "getPageByTitleOperation getContent params w =
     (case getContent (contentRequest params) w of
        (Inl error, w1) \<Rightarrow> (Inl error, w1)
      | (Inr results, w1) \<Rightarrow>
          (if length results = 0 then (Inr None, w1) else (Inr (Some (results ! 0)), w1)))"

definition ConfluenceClient_getPageByTitle ::
  "'w runtime \<Rightarrow> 'w RetryOptions \<Rightarrow> 'w CircuitBreakerOptions \<Rightarrow> circuits \<Rightarrow> int
     \<Rightarrow> (content_request \<Rightarrow> ('w, 'p list) operation) \<Rightarrow> GetContentParams
     \<Rightarrow> 'w \<Rightarrow> (thrown + 'p option) \<times> circuits \<times> 'w" where
  "ConfluenceClient_getPageByTitle rt retryOpts breakerOpts cs now getContent params w =
     ConfluenceClient_execute rt retryOpts breakerOpts cs now (getPageByTitleOperation getContent params) w"

section \<open>Field resolution (lib/jira/services/FieldService.ts)\<close>

datatype LogicalFieldName = Acceptance | Epic | StoryPoints | Sprint

record JiraConfig =
  fieldMapping :: "(LogicalFieldName \<rightharpoonup> string) option"
  acceptanceFieldCandidates :: "string list option"
  epicFieldCandidates :: "string list option"

record JiraField =
  field_id :: string
  field_name :: string

text \<open>The service: its configuration, the \<open>listFields\<close> method of its client,
  if it has one, and the cached catalog (\<open>None\<close> is \<open>null\<close>).\<close>

record 'w FieldService =
  config :: JiraConfig
  client_listFields :: "('w, JiraField list) operation option"
  cachedFields :: "JiraField list option"

text \<open>The regular expressions of \<open>getPatternsForField\<close>, all with the flag
  \<open>i\<close>: a literal, or two literals with \<open>\s*\<close> between them.\<close>

datatype pattern = Literal string | SpacedLiterals string string

text \<open>Under the flag \<open>i\<close> two code units below 256 match when they have the
  same small letter.\<close>

definition startsWithIgnoreCase :: "string \<Rightarrow> string \<Rightarrow> bool" where
  "startsWithIgnoreCase s lit = (toLowerCase (take (length lit) s) = toLowerCase lit)"

text \<open>\<open>\s*\<close> followed by the literal, at the start of the string.\<close>

fun matchSpacesThen :: "string \<Rightarrow> string \<Rightarrow> bool" where
  "matchSpacesThen lit [] = startsWithIgnoreCase [] lit"
| "matchSpacesThen lit (c # cs) =
     (startsWithIgnoreCase (c # cs) lit \<or> (isWhiteSpace c \<and> matchSpacesThen lit cs))"

fun matchHere :: "pattern \<Rightarrow> string \<Rightarrow> bool" where
  "matchHere (Literal a) s = startsWithIgnoreCase s a"
| "matchHere (SpacedLiterals a b) s =
     (startsWithIgnoreCase s a \<and> matchSpacesThen b (drop (length a) s))"

text \<open>\<open>pattern.test(s)\<close>: a match at some position of the string.\<close>

fun test :: "pattern \<Rightarrow> string \<Rightarrow> bool" where
  "test p [] = matchHere p []"
| "test p (c # cs) = (matchHere p (c # cs) \<or> test p cs)"

definition getCandidatesForField :: "JiraConfig \<Rightarrow> LogicalFieldName \<Rightarrow> string list" where
  "getCandidatesForField cfg logicalName =
     (case logicalName of
        Acceptance \<Rightarrow>
          (case acceptanceFieldCandidates cfg of
             Some cands \<Rightarrow> cands
           | None \<Rightarrow> [''Acceptance Criteria'', ''acceptanceCriteria'', ''Acceptance''])
      | Epic \<Rightarrow>
          (case epicFieldCandidates cfg of
             Some cands \<Rightarrow> cands
           | None \<Rightarrow> [''Epic Link'', ''epicLink'', ''Parent Link'', ''Epic''])
      | StoryPoints \<Rightarrow> [''Story Points'', ''storyPoints'', ''Story point estimate'']
      | Sprint \<Rightarrow> [''Sprint'', ''Sprints''])"

definition getPatternsForField :: "LogicalFieldName \<Rightarrow> pattern list" where
  "getPatternsForField logicalName =
     (case logicalName of
        Acceptance \<Rightarrow> [SpacedLiterals ''acceptance'' ''criteria'', Literal ''acceptance'']
      | Epic \<Rightarrow> [SpacedLiterals ''epic'' ''link'', SpacedLiterals ''parent'' ''link'']
      | StoryPoints \<Rightarrow> [SpacedLiterals ''story'' ''point'', SpacedLiterals ''point'' ''estimate'']
      | Sprint \<Rightarrow> [Literal ''sprint''])"

definition getFields :: "'w FieldService \<Rightarrow> 'w \<Rightarrow> JiraField list \<times> 'w FieldService \<times> 'w" where
  "getFields svc w =
     (case cachedFields svc of
        Some cached \<Rightarrow> (cached, svc, w)
      | None \<Rightarrow>
          (case client_listFields svc of
             None \<Rightarrow> ([], svc, w)
           | Some listFields \<Rightarrow>
               (case listFields w of
                  (Inr fetched, w1) \<Rightarrow> (fetched, svc\<lparr> cachedFields := Some fetched \<rparr>, w1)
                | (Inl _, w1) \<Rightarrow> ([], svc, w1))))"

definition candidateMatches :: "string \<Rightarrow> JiraField \<Rightarrow> bool" where
  "candidateMatches candidate f =
     (toLowerCase (field_name f) = toLowerCase candidate \<or>
      toLowerCase (field_id f) = toLowerCase candidate)"

text \<open>The two \<open>for\<close> loops of \<open>discoverFieldId\<close>.\<close>

fun findByCandidates :: "JiraField list \<Rightarrow> string list \<Rightarrow> string option" where
  "findByCandidates fs [] = None"
| "findByCandidates fs (candidate # rest) =
     (case find (candidateMatches candidate) fs of
        Some field \<Rightarrow> Some (field_id field)
      | None \<Rightarrow> findByCandidates fs rest)"

fun findByPatterns :: "JiraField list \<Rightarrow> pattern list \<Rightarrow> string option" where
  "findByPatterns fs [] = None"
| "findByPatterns fs (p # rest) =
     (case find (\<lambda>f. test p (field_name f)) fs of
        Some field \<Rightarrow> Some (field_id field)
      | None \<Rightarrow> findByPatterns fs rest)"

definition discoverFieldId ::
  "'w FieldService \<Rightarrow> LogicalFieldName \<Rightarrow> 'w \<Rightarrow> string option \<times> 'w FieldService \<times> 'w" where
  "discoverFieldId svc logicalName w =
     (case getFields svc w of
        (fs, svc1, w1) \<Rightarrow>
          (if length fs = 0 then (None, svc1, w1)
           else
             let candidates = getCandidatesForField (config svc1) logicalName;
                 patterns = getPatternsForField logicalName
             in case findByCandidates fs candidates of
                  Some i \<Rightarrow> (Some i, svc1, w1)
                | None \<Rightarrow>
                    (case findByPatterns fs patterns of
                       Some i \<Rightarrow> (Some i, svc1, w1)
                     | None \<Rightarrow> (None, svc1, w1))))"

text \<open>\<open>this.config.fieldMapping?.[logicalName]\<close>.\<close>

definition configuredId :: "JiraConfig \<Rightarrow> LogicalFieldName \<Rightarrow> string option" where
  "configuredId cfg logicalName = Option.bind (fieldMapping cfg) (\<lambda>m. m logicalName)"

definition resolveFieldId ::
  "'w FieldService \<Rightarrow> LogicalFieldName \<Rightarrow> 'w \<Rightarrow> string option \<times> 'w FieldService \<times> 'w" where
  "resolveFieldId svc logicalName w =
     (case configuredId (config svc) logicalName of
        Some cid \<Rightarrow> (if cid \<noteq> [] then (Some cid, svc, w) else discoverFieldId svc logicalName w)
      | None \<Rightarrow> discoverFieldId svc logicalName w)"

subsection \<open>The resolution order in the words of the specification\<close>

text \<open>
  All exact matches, candidate by candidate and field by field within a
  candidate, then all pattern matches, pattern by pattern; the identifier of
  the first field of that list, if there is one.
\<close>

definition matchesInOrder :: "JiraField list \<Rightarrow> string list \<Rightarrow> pattern list \<Rightarrow> JiraField list" where
  "matchesInOrder fs candidates patterns =
     concat (map (\<lambda>candidate. filter (candidateMatches candidate) fs) candidates) @
     concat (map (\<lambda>p. filter (\<lambda>f. test p (field_name f)) fs) patterns)"

definition firstMatch_spec :: "JiraField list \<Rightarrow> string list \<Rightarrow> pattern list \<Rightarrow> string option" where
  "firstMatch_spec fs candidates patterns =
     (case matchesInOrder fs candidates patterns of
        [] \<Rightarrow> None
      | f # _ \<Rightarrow> Some (field_id f))"

section \<open>Creation fallback (lib/jira/handlers.js, \<open>handleJiraCreate\<close>)\<close>

text \<open>
  The part of \<open>handleJiraCreate\<close> from the construction of the candidate
  lists to its end. Its inputs are the values computed before: the base
  fields, the acceptance text and its table form, the epic key, the two field
  preferences, and the environment variables that the candidate lists read. A
  text that \<open>normalizeText\<close> or \<open>normalizeMultiline\<close> returned as \<open>undefined\<close>
  is the empty string here for the acceptance text and the epic key, and
  \<open>None\<close> for a preference. The field errors and the messages of a rejection
  are strings, as Jira sends them. Console output is left out.
\<close>

definition ACCEPTANCE_FIELD_DEFAULTS :: "string list" where
  "ACCEPTANCE_FIELD_DEFAULTS = [''customfield_10201'']"

definition EPIC_FIELD_DEFAULTS :: "string list" where
  "EPIC_FIELD_DEFAULTS = [''customfield_10001'', ''customfield_15208'', ''customfield_10008'']"

definition EPIC_STRING_FIELD_DEFAULTS :: "string list" where
  "EPIC_STRING_FIELD_DEFAULTS = [''customfield_10001'', ''customfield_10008'']"

text \<open>\<open>normalizeText\<close> and \<open>readEnvList\<close> on a value that
  is a string or \<open>undefined\<close>; \<open>readEnvList\<close> takes the value of the variable
  it names.\<close>

definition normalizeText :: "string option \<Rightarrow> string option" where
  "normalizeText v =
     (case v of
        None \<Rightarrow> None
      | Some s \<Rightarrow> (let trimmed = trim s in if length trimmed \<noteq> 0 then Some trimmed else None))"

definition readEnvList :: "string option \<Rightarrow> string list" where
  "readEnvList v =
     (case v of
        None \<Rightarrow> []
      | Some s \<Rightarrow> (if s = [] then [] else filter (\<lambda>item. item \<noteq> []) (map trim (splitComma s))))"

text \<open>\<open>.filter(Boolean)\<close> on strings that may be \<open>undefined\<close>.\<close>

definition filterBoolean :: "string option list \<Rightarrow> string list" where
  "filterBoolean xs =
     concat (map (\<lambda>x. case x of Some s \<Rightarrow> (if s \<noteq> [] then [s] else []) | None \<Rightarrow> []) xs)"

datatype 'b field_value = StringValue string | KeyObject string | BaseValue 'b

type_synonym 'b payload = "string \<rightharpoonup> 'b field_value"

record 'b create_inputs =
  baseFields :: "'b payload"
  acceptance :: string
  acceptanceTable :: string
  epicKey :: string
  acceptanceFieldPreference :: "string option"
  epicFieldPreference :: "string option"
  JIRA_ACCEPTANCE_FIELD :: "string option"
  JIRA_ACCEPTANCE_FIELDS :: "string option"
  JIRA_EPIC_FIELD :: "string option"
  JIRA_EPIC_FIELDS :: "string option"
  JIRA_EPIC_STRING_FIELDS :: "string option"

definition acceptanceFieldCandidatesOf :: "'b create_inputs \<Rightarrow> string list" where
  "acceptanceFieldCandidatesOf inp =
     filterBoolean
       ([acceptanceFieldPreference inp, normalizeText (JIRA_ACCEPTANCE_FIELD inp)]
        @ map Some (readEnvList (JIRA_ACCEPTANCE_FIELDS inp))
        @ map Some ACCEPTANCE_FIELD_DEFAULTS)"

definition epicFieldCandidatesOf :: "'b create_inputs \<Rightarrow> string list" where
  "epicFieldCandidatesOf inp =
     filterBoolean
       ([epicFieldPreference inp, normalizeText (JIRA_EPIC_FIELD inp)]
        @ map Some (readEnvList (JIRA_EPIC_FIELDS inp))
        @ map Some EPIC_FIELD_DEFAULTS)"

definition epicStringFieldSet :: "'b create_inputs \<Rightarrow> string set" where
  "epicStringFieldSet inp = set (readEnvList (JIRA_EPIC_STRING_FIELDS inp) @ EPIC_STRING_FIELD_DEFAULTS)"

record fallback_state =
  acceptanceFieldIndex :: nat
  acceptanceFieldId :: "string option"
  epicFieldIndex :: nat
  epicFieldId :: "string option"
  includeAcceptance :: bool
  includeEpic :: bool
  epicAsString :: bool

text \<open>Truthiness of a field identifier that may be \<open>undefined\<close>.\<close>

definition truthyId :: "string option \<Rightarrow> bool" where
  "truthyId x = (case x of Some s \<Rightarrow> s \<noteq> [] | None \<Rightarrow> False)"

definition initialState :: "'b create_inputs \<Rightarrow> fallback_state" where
  "initialState inp =
     (let acceptanceId = (case acceptanceFieldCandidatesOf inp of [] \<Rightarrow> None | c # _ \<Rightarrow> Some c);
          epicId = (case epicFieldCandidatesOf inp of [] \<Rightarrow> None | c # _ \<Rightarrow> Some c)
      in \<lparr> acceptanceFieldIndex = 0,
           acceptanceFieldId = acceptanceId,
           epicFieldIndex = 0,
           epicFieldId = epicId,
           includeAcceptance = (truthyId acceptanceId \<and> acceptance inp \<noteq> []),
           includeEpic = (truthyId epicId \<and> epicKey inp \<noteq> []),
           epicAsString = (case epicId of
                             Some f \<Rightarrow> (if f \<noteq> [] then f \<in> epicStringFieldSet inp else False)
                           | None \<Rightarrow> False) \<rparr>)"

text \<open>
  \<open>fieldsPayload[k] = v\<close> on a plain object: it sets the property \<open>k\<close> of the
  object itself, except for the name \<open>__proto__\<close>, which is an accessor of
  \<open>Object.prototype\<close> unless the object has a property of that name itself;
  through the accessor no property of the object itself is set, and only those
  are sent.
\<close>

definition assignField :: "'b payload \<Rightarrow> string \<Rightarrow> 'b field_value \<Rightarrow> 'b payload" where
  "assignField p k v = (if k = ''__proto__'' \<and> p k = None then p else p(k \<mapsto> v))"

text \<open>The payload of an attempt: the base fields, then the acceptance field,
  then the epic field.\<close>

definition withAcceptance :: "'b create_inputs \<Rightarrow> fallback_state \<Rightarrow> 'b payload \<Rightarrow> 'b payload" where
  "withAcceptance inp st p =
     (case acceptanceFieldId st of
        Some a \<Rightarrow>
          (if includeAcceptance st \<and> a \<noteq> []
           then assignField p a
                  (StringValue (if acceptanceTable inp \<noteq> [] then acceptanceTable inp else acceptance inp))
           else p)
      | None \<Rightarrow> p)"

definition withEpic :: "'b create_inputs \<Rightarrow> fallback_state \<Rightarrow> 'b payload \<Rightarrow> 'b payload" where
  "withEpic inp st p =
     (case epicFieldId st of
        Some f \<Rightarrow>
          (if includeEpic st \<and> f \<noteq> []
           then assignField p f
                  (if epicAsString st then StringValue (epicKey inp) else KeyObject (epicKey inp))
           else p)
      | None \<Rightarrow> p)"

definition fieldsPayload :: "'b create_inputs \<Rightarrow> fallback_state \<Rightarrow> 'b payload" where
  "fieldsPayload inp st = withEpic inp st (withAcceptance inp st (baseFields inp))"

text \<open>\<open>error?.response?.data || {}\<close>, then \<open>errors || {}\<close> and the
  \<open>errorMessages\<close> array.\<close>

definition fieldErrorsOf :: "thrown \<Rightarrow> (string \<times> string) list" where
  "fieldErrorsOf error =
     (case Option.bind (Option.bind (responseProp error) data) errors of
        Some es \<Rightarrow> es
      | None \<Rightarrow> [])"

definition generalMessagesOf :: "thrown \<Rightarrow> string list" where
  "generalMessagesOf error =
     (case Option.bind (Option.bind (responseProp error) data) errorMessages of
        Some ms \<Rightarrow> ms
      | None \<Rightarrow> [])"

text \<open>
  \<open>fieldErrors[k]\<close>: \<open>fieldErrors\<close> is a plain object, so the read finds a
  property of the object itself, and otherwise one that \<open>Object.prototype\<close>
  has under that name (a function, or, for \<open>__proto__\<close>, the prototype itself:
  a truthy value that is not a string), and otherwise \<open>undefined\<close>.
\<close>

datatype property_value = UndefinedValue | OwnString string | InheritedValue

definition objectPrototypeProperties :: "string list" where
  "objectPrototypeProperties =
     [''constructor'', ''__defineGetter__'', ''__defineSetter__'', ''hasOwnProperty'',
      ''__lookupGetter__'', ''__lookupSetter__'', ''isPrototypeOf'', ''propertyIsEnumerable'',
      ''toString'', ''valueOf'', ''__proto__'', ''toLocaleString'']"

definition getProperty :: "(string \<times> string) list \<Rightarrow> string \<Rightarrow> property_value" where
  "getProperty obj k =
     (case map_of obj k of
        Some m \<Rightarrow> OwnString m
      | None \<Rightarrow> (if k \<in> set objectPrototypeProperties then InheritedValue else UndefinedValue))"

fun truthyProperty :: "property_value \<Rightarrow> bool" where
  "truthyProperty UndefinedValue = False"
| "truthyProperty (OwnString m) = (m \<noteq> [])"
| "truthyProperty InheritedValue = True"

definition adjustAcceptance :: "'b create_inputs \<Rightarrow> thrown \<Rightarrow> fallback_state \<Rightarrow> fallback_state \<times> bool" where
  "adjustAcceptance inp error st =
     (case acceptanceFieldId st of
        Some a \<Rightarrow>
          (if includeAcceptance st \<and> a \<noteq> [] \<and> truthyProperty (getProperty (fieldErrorsOf error) a)
           then
             (let nextIndex = acceptanceFieldIndex st + 1
              in if nextIndex < length (acceptanceFieldCandidatesOf inp)
                 then (st\<lparr> acceptanceFieldIndex := nextIndex,
                           acceptanceFieldId := Some (acceptanceFieldCandidatesOf inp ! nextIndex) \<rparr>, True)
                 else (st\<lparr> includeAcceptance := False \<rparr>, True))
           else (st, False))
      | None \<Rightarrow> (st, False))"

text \<open>The field error is pushed when \<open>typeof epicFieldError === 'string'\<close>.\<close>

definition combinedMessages :: "thrown \<Rightarrow> string \<Rightarrow> string list" where
  "combinedMessages error f =
     (case getProperty (fieldErrorsOf error) f of OwnString m \<Rightarrow> [m] | _ \<Rightarrow> [])
     @ generalMessagesOf error"

definition requiresString :: "thrown \<Rightarrow> fallback_state \<Rightarrow> string \<Rightarrow> bool" where
  "requiresString error st f =
     (\<not> epicAsString st \<and>
      list_ex (\<lambda>m. test (Literal ''string value expected'') m) (combinedMessages error f))"

definition adjustEpic :: "'b create_inputs \<Rightarrow> thrown \<Rightarrow> fallback_state \<Rightarrow> fallback_state \<times> bool" where
  "adjustEpic inp error st =
     (case epicFieldId st of
        Some f \<Rightarrow>
          (if includeEpic st \<and> f \<noteq> []
           then
             (if requiresString error st f then (st\<lparr> epicAsString := True \<rparr>, True)
              else if truthyProperty (getProperty (fieldErrorsOf error) f)
              then
                (let nextIndex = epicFieldIndex st + 1
                 in if nextIndex < length (epicFieldCandidatesOf inp)
                    then (st\<lparr> epicFieldIndex := nextIndex,
                              epicFieldId := Some (epicFieldCandidatesOf inp ! nextIndex),
                              epicAsString := (epicFieldCandidatesOf inp ! nextIndex \<in> epicStringFieldSet inp) \<rparr>,
                          True)
                    else (st\<lparr> includeEpic := False \<rparr>, True))
              else (st, False))
           else (st, False))
      | None \<Rightarrow> (st, False))"

text \<open>The \<open>catch\<close> block: the new state, and whether anything was adjusted.\<close>

definition adjustAfterRejection ::
  "'b create_inputs \<Rightarrow> thrown \<Rightarrow> fallback_state \<Rightarrow> fallback_state \<times> bool" where
  "adjustAfterRejection inp error st =
     (case adjustAcceptance inp error st of
        (st1, adjusted1) \<Rightarrow>
          (case adjustEpic inp error st1 of
             (st2, adjusted2) \<Rightarrow> (st2, adjusted1 \<or> adjusted2)))"

fun truthyThrown :: "thrown \<Rightarrow> bool" where
  "truthyThrown (Primitive PUndefined) = False"
| "truthyThrown (Primitive PNull) = False"
| "truthyThrown (Primitive (PString s)) = (s \<noteq> [])"
| "truthyThrown (Primitive (PNumber n)) = (n \<noteq> 0)"
| "truthyThrown (Primitive (PBoolean b)) = b"
| "truthyThrown _ = True"

definition newError :: "string \<Rightarrow> thrown" where
  "newError m = Object \<lparr> instanceofError = True, message_of = Message m, code_of = None,
                         status_of = None, response_of = None \<rparr>"

text \<open>The \<open>for\<close> loop over \<open>attempt\<close> and the statements after it;
  \<open>lastError\<close> is \<open>None\<close> for \<open>null\<close>.\<close>

function createLoop ::
  "'b create_inputs \<Rightarrow> ('b payload \<Rightarrow> ('w, 'i) operation) \<Rightarrow> nat \<Rightarrow> fallback_state \<Rightarrow> thrown option
     \<Rightarrow> 'w \<Rightarrow> (thrown + 'i) \<times> 'w" where
  "createLoop inp createIssue attempt st lastError w =
     (if attempt < 3
      then (case createIssue (fieldsPayload inp st) w of
              (Inr issue, w1) \<Rightarrow> (Inr issue, w1)
            | (Inl error, w1) \<Rightarrow>
                (case adjustAfterRejection inp error st of
                   (st', adjusted) \<Rightarrow>
                     (if \<not> adjusted then (Inl error, w1)
                      else createLoop inp createIssue (attempt + 1) st' (Some error) w1)))
      else (case lastError of
              Some e \<Rightarrow> (if truthyThrown e then (Inl e, w)
                         else (Inl (newError ''Failed to create Jira issue.''), w))
            | None \<Rightarrow> (Inl (newError ''Failed to create Jira issue.''), w)))"
  by pat_completeness auto
termination
  by (relation "measure (\<lambda>(inp, createIssue, attempt, st, lastError, w). 3 - attempt)") auto

declare createLoop.simps [simp del]

definition handleJiraCreate ::
  "'b create_inputs \<Rightarrow> ('b payload \<Rightarrow> ('w, 'i) operation) \<Rightarrow> 'w \<Rightarrow> (thrown + 'i) \<times> 'w" where
  "handleJiraCreate inp createIssue w = createLoop inp createIssue 0 (initialState inp) None w"

text \<open>Instrumentation: a \<open>createIssue\<close> that records the payloads it is sent.\<close>

definition recordingPayloads ::
  "('b payload \<Rightarrow> ('w, 'i) operation) \<Rightarrow> 'b payload \<Rightarrow> ('w \<times> 'b payload list, 'i) operation" where
  "recordingPayloads createIssue p = (\<lambda>(w, sent). case createIssue p w of (r, w') \<Rightarrow> (r, (w', sent @ [p])))"

subsection \<open>Worked examples of the fallback\<close>

text \<open>
  An issue with an epic key, no field preference and no environment variable
  set, so that the candidates are the built-in ones. The first server rejects
  the first epic candidate, answers the second one with the general message
  that a string is expected, and accepts the third payload. The second server
  rejects every payload that carries one of the built-in epic fields, with an
  error for that field, and accepts a payload with none of them.
\<close>

definition exampleInputs :: "unit create_inputs" where
  "exampleInputs =
     \<lparr> baseFields = [''summary'' \<mapsto> BaseValue ()], acceptance = [], acceptanceTable = [],
       epicKey = ''CYMATE-6'',
       acceptanceFieldPreference = None, epicFieldPreference = None,
       JIRA_ACCEPTANCE_FIELD = None, JIRA_ACCEPTANCE_FIELDS = None,
       JIRA_EPIC_FIELD = None, JIRA_EPIC_FIELDS = None, JIRA_EPIC_STRING_FIELDS = None \<rparr>"

definition rejection :: "(string \<times> string) list \<Rightarrow> string list \<Rightarrow> thrown" where
  "rejection fieldErrors generalMessages =
     Object \<lparr> instanceofError = True, message_of = Message ''Request failed'', code_of = None,
              status_of = None,
              response_of = Some \<lparr> response_status = Some 400, statusText = None,
                data = Some \<lparr> errors = Some fieldErrors, errorMessages = Some generalMessages,
                              data_message = None, data_reason = None \<rparr> \<rparr> \<rparr>"

definition exampleServer :: "unit payload \<Rightarrow> (unit, nat) operation" where
  "exampleServer p w =
     (if p ''customfield_10001'' \<noteq> None
      then (Inl (rejection [(''customfield_10001'', ''Field cannot be set'')] []), w)
      else if p ''customfield_15208'' = Some (KeyObject ''CYMATE-6'')
      then (Inl (rejection [] [''Operation value must be a string: String value expected'']), w)
      else (Inr 1, w))"

definition rejectingServer :: "unit payload \<Rightarrow> (unit, nat) operation" where
  "rejectingServer p w =
     (case filter (\<lambda>f. p f \<noteq> None) EPIC_FIELD_DEFAULTS of
        [] \<Rightarrow> (Inr 1, w)
      | f # _ \<Rightarrow> (Inl (rejection [(f, ''Field cannot be set'')] []), w))"

definition exampleState :: "nat \<Rightarrow> string \<Rightarrow> bool \<Rightarrow> bool \<Rightarrow> fallback_state" where
  "exampleState i f asString inc =
     \<lparr> acceptanceFieldIndex = 0, acceptanceFieldId = Some ''customfield_10201'',
       epicFieldIndex = i, epicFieldId = Some f,
       includeAcceptance = False, includeEpic = inc, epicAsString = asString \<rparr>"

section \<open>Properties of the circuit breaker\<close>

lemma getCircuit_upd [simp]: "getCircuit (cs(svc \<mapsto> c)) svc = (c, cs(svc \<mapsto> c))"
  by (simp add: getCircuit_def)

lemma getCircuit_snd: "snd (getCircuit cs svc) = cs(svc \<mapsto> fst (getCircuit cs svc))"
  by (auto simp: getCircuit_def split: option.splits)









text \<open>
  Claim C5. When a call has found the circuit open, moved it to half-open and
  been admitted as the trial (its entry part returned without throwing), the
  circuit is half-open with one attempt issued; a second call with
  \<open>halfOpenMaxAttempts = 1\<close> made on that circuit before the first has
  settled rejects with \<open>CIRCUIT_BREAKER_OPEN\<close>, whatever its clock reading,
  and its function is not invoked.
\<close>

theorem half_open_single_trial:
  assumes "state c = Open"
    and "beforeCall svc now1 opts1 c w = (Inr (), c1, w1)"
    and "halfOpenMaxAttempts opts2 = 1"
  shows "state c1 = HalfOpen \<and> halfOpenAttempts c1 = 1 \<and>
         withCircuitBreaker (cs(svc \<mapsto> c1)) svc now2 (counting fn2) opts2 (w2, 0) =
           (Inl (circuitBreakerOpen svc), cs(svc \<mapsto> c1), (w2, 0)) \<and>
         code (circuitBreakerOpen svc) = CIRCUIT_BREAKER_OPEN"
proof -
  from assms(1,2) have c1: "state c1 = HalfOpen" "halfOpenAttempts c1 = 1"
    by (auto simp: beforeCall_def transitionTo_def Let_def split: if_splits option.splits)
  have b: "beforeCall svc now2 opts2 c1 (w2, 0::nat) = (Inl (circuitBreakerOpen svc), c1, (w2, 0))"
    using c1 assms(3) by (simp add: beforeCall_def)
  have "withCircuitBreaker (cs(svc \<mapsto> c1)) svc now2 (counting fn2) opts2 (w2, 0) =
           (Inl (circuitBreakerOpen svc), cs(svc \<mapsto> c1), (w2, 0))"
    by (simp add: withCircuitBreaker_def b)
  with c1 show ?thesis by (simp add: circuitBreakerOpen_def)
qed

theorem half_open_single_trial_witness:
  "state \<lparr> state = Open, failureCount = 5, lastFailureTime = 0, halfOpenAttempts = 0 \<rparr> = Open \<and>
   beforeCall ''svc'' 30000 (defaultCircuitBreakerOptions :: unit CircuitBreakerOptions)
     \<lparr> state = Open, failureCount = 5, lastFailureTime = 0, halfOpenAttempts = 0 \<rparr> () =
     (Inr (), \<lparr> state = HalfOpen, failureCount = 5, lastFailureTime = 0, halfOpenAttempts = 1 \<rparr>, ()) \<and>
   halfOpenMaxAttempts (defaultCircuitBreakerOptions :: (unit \<times> nat) CircuitBreakerOptions) = 1 \<and>
   withCircuitBreaker
     [''svc'' \<mapsto> \<lparr> state = HalfOpen, failureCount = 5, lastFailureTime = 0, halfOpenAttempts = 1 \<rparr>]
     ''svc'' 30001 (counting (\<lambda>w :: unit. (Inr True :: thrown + bool, w))) defaultCircuitBreakerOptions ((), 0) =
     (Inl (circuitBreakerOpen ''svc''),
      [''svc'' \<mapsto> \<lparr> state = HalfOpen, failureCount = 5, lastFailureTime = 0, halfOpenAttempts = 1 \<rparr>],
      ((), 0))"
proof -
  have h1: "state \<lparr> state = Open, failureCount = 5, lastFailureTime = 0, halfOpenAttempts = 0 \<rparr> = Open"
    by simp
  have h2: "beforeCall ''svc'' 30000 (defaultCircuitBreakerOptions :: unit CircuitBreakerOptions)
     \<lparr> state = Open, failureCount = 5, lastFailureTime = 0, halfOpenAttempts = 0 \<rparr> () =
     (Inr (), \<lparr> state = HalfOpen, failureCount = 5, lastFailureTime = 0, halfOpenAttempts = 1 \<rparr>, ())"
    by (simp add: beforeCall_def transitionTo_def defaultCircuitBreakerOptions_def
        DEFAULT_RESET_TIMEOUT_MS_def DEFAULT_HALF_OPEN_MAX_ATTEMPTS_def Let_def)
  have h3: "halfOpenMaxAttempts (defaultCircuitBreakerOptions :: (unit \<times> nat) CircuitBreakerOptions) = 1"
    by (simp add: defaultCircuitBreakerOptions_def DEFAULT_HALF_OPEN_MAX_ATTEMPTS_def)
  from half_open_single_trial[OF h1 h2 h3, where cs = Map.empty and ?now2.0 = 30001
      and ?fn2.0 = "\<lambda>w :: unit. (Inr True :: thrown + bool, w)" and ?w2.0 = "()"]
    h1 h2 h3
  show ?thesis by simp
qed

text \<open>
  Claim C6, as stated, fails for a circuit that is open with its reset timeout
  elapsed: the entry part moves it to half-open and counts the trial before the
  function is invoked, and the failure that does not trip leaves both changes in
  place.
\<close>

theorem non_tripping_failure_changes_open_circuit:
  "withCircuitBreaker
     [''svc'' \<mapsto> \<lparr> state = Open, failureCount = 5, lastFailureTime = 0, halfOpenAttempts = 0 \<rparr>]
     ''svc'' 30000 (\<lambda>w :: unit. (Inl (Primitive (PString ''boom'')) :: thrown + bool, w))
     (defaultCircuitBreakerOptions\<lparr> shouldTrip := (\<lambda>_. False) \<rparr>) () =
     (Inl (Primitive (PString ''boom'')),
      [''svc'' \<mapsto> \<lparr> state = HalfOpen, failureCount = 5, lastFailureTime = 0, halfOpenAttempts = 1 \<rparr>],
      ()) \<and>
   \<lparr> state = HalfOpen, failureCount = 5, lastFailureTime = 0, halfOpenAttempts = 1 \<rparr> \<noteq>
   \<lparr> state = Open, failureCount = 5, lastFailureTime = 0, halfOpenAttempts = 0 \<rparr>"
  by (simp add: withCircuitBreaker_def getCircuit_def beforeCall_def afterCall_def transitionTo_def
      defaultCircuitBreakerOptions_def DEFAULT_RESET_TIMEOUT_MS_def DEFAULT_HALF_OPEN_MAX_ATTEMPTS_def
      Let_def)

lemma non_tripping_step:
  assumes "state (fst (getCircuit cs svc)) = Closed"
    and "fn w = (Inl e, w')" and "\<not> shouldTrip opts e"
  shows "withCircuitBreaker cs svc now fn opts w = (Inl e, snd (getCircuit cs svc), w')"
proof -
  obtain c cs1 where g: "getCircuit cs svc = (c, cs1)" by (cases "getCircuit cs svc")
  have cs1: "cs1 = cs(svc \<mapsto> c)" using getCircuit_snd[of cs svc] g by simp
  have b: "beforeCall svc now opts c w = (Inr (), c, w)"
    using assms(1) g by (simp add: beforeCall_def)
  show ?thesis
    using assms(2,3) by (simp add: withCircuitBreaker_def g b afterCall_def cs1)
qed

lemma getCircuit_idem: "getCircuit (snd (getCircuit cs svc)) svc = (fst (getCircuit cs svc), snd (getCircuit cs svc))"
  by (simp add: getCircuit_def split: option.splits)

lemma runCalls_non_tripping:
  assumes "\<forall>call \<in> set calls. nonTrippingFailure call"
    and "state (fst (getCircuit cs svc)) = Closed"
  shows "fst (getCircuit (fst (runCalls cs svc calls w)) svc) = fst (getCircuit cs svc)"
  using assms
proof (induction calls arbitrary: cs w)
  case Nil
  then show ?case by simp
next
  case (Cons call calls)
  obtain now fn opts where call: "call = (now, fn, opts)" by (cases call)
  obtain r w' where f: "fn w = (r, w')" by (cases "fn w")
  from Cons.prems(1) call f obtain e where r: "r = Inl e" and nt: "\<not> shouldTrip opts e"
    by (auto simp: nonTrippingFailure_def split: sum.splits dest: spec[of _ w])
  have step: "withCircuitBreaker cs svc now fn opts w = (Inl e, snd (getCircuit cs svc), w')"
    using Cons.prems(2) f r nt by (intro non_tripping_step) simp_all
  let ?cs' = "snd (getCircuit cs svc)"
  have same: "fst (getCircuit ?cs' svc) = fst (getCircuit cs svc)"
    by (simp add: getCircuit_idem)
  have "fst (getCircuit (fst (runCalls ?cs' svc calls w')) svc) = fst (getCircuit ?cs' svc)"
  proof (rule Cons.IH)
    show "\<forall>call \<in> set calls. nonTrippingFailure call" using Cons.prems(1) by simp
    show "state (fst (getCircuit ?cs' svc)) = Closed" using Cons.prems(2) by (simp only: same)
  qed
  then show ?case by (simp add: call step same)
qed

text \<open>
  Claim C6, amended. For a circuit that is closed when the call is made (a new
  one included), a failing call for which \<open>shouldTrip\<close> is false propagates
  the error and leaves the four fields of the circuit as they were; so any
  number of consecutive such failures, ten included, leaves the circuit closed
  with the failure count it had (0 for a new circuit).
\<close>

theorem non_tripping_failure_keeps_closed_circuit:
  assumes "state (fst (getCircuit cs svc)) = Closed"
  shows "(fn w = (Inl e, w') \<and> \<not> shouldTrip opts e \<longrightarrow>
            fst (withCircuitBreaker cs svc now fn opts w) = Inl e \<and>
            fst (getCircuit (fst (snd (withCircuitBreaker cs svc now fn opts w))) svc) =
              fst (getCircuit cs svc)) \<and>
         ((\<forall>call \<in> set calls. nonTrippingFailure call) \<longrightarrow>
            fst (getCircuit (fst (runCalls cs svc calls v)) svc) = fst (getCircuit cs svc))"
  using non_tripping_step[OF assms, of fn w e w' opts now] runCalls_non_tripping[OF _ assms, of calls v]
  by (auto simp: getCircuit_idem)

theorem non_tripping_failure_keeps_closed_circuit_witness:
  "state (fst (getCircuit Map.empty ''svc'')) = Closed \<and>
   nonTrippingFailure (1000 :: int, (\<lambda>w :: unit. (Inl (Primitive (PString ''boom'')) :: thrown + bool, w)),
        defaultCircuitBreakerOptions\<lparr> shouldTrip := (\<lambda>_. False) \<rparr>) \<and>
   fst (getCircuit (fst (runCalls Map.empty ''svc''
        (replicate 10 (1000 :: int, (\<lambda>w :: unit. (Inl (Primitive (PString ''boom'')) :: thrown + bool, w)),
        defaultCircuitBreakerOptions\<lparr> shouldTrip := (\<lambda>_. False) \<rparr>)) ())) ''svc'') =
     \<lparr> state = Closed, failureCount = 0, lastFailureTime = 0, halfOpenAttempts = 0 \<rparr>"
proof -
  have h1: "state (fst (getCircuit Map.empty ''svc'')) = Closed"
    by (simp add: getCircuit_def newCircuit_def)
  have h2: "\<forall>call \<in> set (replicate 10 (1000 :: int, (\<lambda>w :: unit. (Inl (Primitive (PString ''boom'')) :: thrown + bool, w)),
        defaultCircuitBreakerOptions\<lparr> shouldTrip := (\<lambda>_. False) \<rparr>)). nonTrippingFailure call"
    by (simp add: nonTrippingFailure_def)
  have g: "fst (getCircuit Map.empty ''svc'') =
     \<lparr> state = Closed, failureCount = 0, lastFailureTime = 0, halfOpenAttempts = 0 \<rparr>"
    by (simp add: getCircuit_def newCircuit_def)
  from non_tripping_failure_keeps_closed_circuit[OF h1, where v = "()"
      and fn = "\<lambda>w :: unit. (Inl (Primitive (PString ''boom'')) :: thrown + bool, w)"
      and w = "()" and w' = "()" and e = "Primitive (PString ''boom'')" and now = 1000
      and opts = "defaultCircuitBreakerOptions\<lparr> shouldTrip := (\<lambda>_. False) \<rparr>" and calls =
      "replicate 10 (1000 :: int, (\<lambda>w :: unit. (Inl (Primitive (PString ''boom'')) :: thrown + bool, w)),
        defaultCircuitBreakerOptions\<lparr> shouldTrip := (\<lambda>_. False) \<rparr>)"] h1 h2 g
  show ?thesis by simp
qed

section \<open>Properties of the retrier\<close>

lemma lifted_fields:
  "maxAttempts (liftRetryOptions opts) = maxAttempts opts"
  "shouldRetry (liftRetryOptions opts) = shouldRetry opts"
  by (simp_all add: liftRetryOptions_def)

lemma lifted_delays:
  "baseDelayMs (liftRetryOptions opts) = baseDelayMs opts"
  "maxDelayMs (liftRetryOptions opts) = maxDelayMs opts"
  by (simp_all add: liftRetryOptions_def)

lemma lifted_random: "random (liftRuntime rt) (w, l) = (case random rt w of (r, w') \<Rightarrow> (r, (w', l)))"
  by (simp add: liftRuntime_def)

lemma lifted_sleep: "sleep (liftRuntime rt) d (w, l) = (sleep rt d w, l)"
  by (simp add: liftRuntime_def besideLog_def)

lemma lifted_onRetry:
  "(case onRetry (liftRetryOptions opts) of None \<Rightarrow> (w, l) | Some h \<Rightarrow> h e a d (w, l)) =
   ((case onRetry opts of None \<Rightarrow> w | Some h \<Rightarrow> h e a d w), l)"
  by (simp add: liftRetryOptions_def besideLog_def split: option.splits)

lemma retry_loop_log:
  assumes "withRetry_loop (liftRuntime rt) (logging fn) (liftRetryOptions opts) attempt lastError (w, log0) = (r, (w', lg))"
  shows "\<exists>new. lg = log0 @ new \<and>
           int (length new) \<le> max 0 (maxAttempts opts + 1 - attempt) \<and>
           (if attempt \<le> maxAttempts opts then new \<noteq> [] \<and> last new = r
            else new = [] \<and> r = Inl lastError)"
  using assms
proof (induction "nat (maxAttempts opts + 1 - attempt)" arbitrary: attempt lastError w log0 rule: less_induct)
  case less
  show ?case
  proof (cases "attempt \<le> maxAttempts opts")
    case False
    with less.prems show ?thesis
      by (simp add: withRetry_loop.simps[of _ _ _ attempt] lifted_fields)
  next
    case True
    obtain x w1 where f: "fn w = (x, w1)" by (cases "fn w")
    have lf: "logging fn (w, log0) = (x, (w1, log0 @ [x]))"
      by (simp add: logging_def f)
    show ?thesis
    proof (cases x)
      case (Inr v)
      with less.prems True lf have "lg = log0 @ [x]" "r = x"
        by (auto simp add: withRetry_loop.simps[of _ _ _ attempt] lifted_fields)
      with True show ?thesis by (intro exI[of _ "[x]"]) simp
    next
      case (Inl e)
      show ?thesis
      proof (cases "attempt \<ge> maxAttempts opts \<or> \<not> shouldRetry opts e attempt")
        case stop: True
        from less.prems True lf Inl stop have "lg = log0 @ [x]" "r = x"
          by (auto simp add: withRetry_loop.simps[of _ _ _ attempt] lifted_fields split: if_splits)
        with True show ?thesis by (intro exI[of _ "[x]"]) simp
      next
        case go: False
        obtain r0 w2 where rnd: "random rt w1 = (r0, w2)" by (cases "random rt w1")
        have "\<exists>w4. withRetry_loop (liftRuntime rt) (logging fn) (liftRetryOptions opts) attempt lastError (w, log0) =
                   withRetry_loop (liftRuntime rt) (logging fn) (liftRetryOptions opts) (attempt + 1) e (w4, log0 @ [x])"
          using True go lf Inl rnd
          by (subst withRetry_loop.simps)
             (auto simp add: lifted_fields lifted_delays lifted_random lifted_sleep lifted_onRetry Let_def)
        then obtain w4 where rec:
          "withRetry_loop (liftRuntime rt) (logging fn) (liftRetryOptions opts) attempt lastError (w, log0) =
           withRetry_loop (liftRuntime rt) (logging fn) (liftRetryOptions opts) (attempt + 1) e (w4, log0 @ [x])"
          by blast
        have "\<exists>new. lg = (log0 @ [x]) @ new \<and>
           int (length new) \<le> max 0 (maxAttempts opts + 1 - (attempt + 1)) \<and>
           (if attempt + 1 \<le> maxAttempts opts then new \<noteq> [] \<and> last new = r
            else new = [] \<and> r = Inl e)"
        proof (rule less.hyps)
          show "nat (maxAttempts opts + 1 - (attempt + 1)) < nat (maxAttempts opts + 1 - attempt)"
            using True by simp
          show "withRetry_loop (liftRuntime rt) (logging fn) (liftRetryOptions opts) (attempt + 1) e (w4, log0 @ [x]) = (r, w', lg)"
            using less.prems rec by simp
        qed
        then obtain new where n: "lg = (log0 @ [x]) @ new"
          "int (length new) \<le> max 0 (maxAttempts opts + 1 - (attempt + 1))"
          "(if attempt + 1 \<le> maxAttempts opts then new \<noteq> [] \<and> last new = r else new = [] \<and> r = Inl e)"
          by blast
        from go have lt: "attempt + 1 \<le> maxAttempts opts" by simp
        show ?thesis
          using n lt True by (intro exI[of _ "x # new"]) auto
      qed
    qed
  qed
qed

text \<open>
  Claim C2, as stated, fails for options with \<open>maxAttempts = 0\<close>: the loop
  body never runs, the operation is not invoked at all, and \<open>withRetry\<close>
  rejects with \<open>undefined\<close>, the initial value of \<open>lastError\<close>.
\<close>

theorem withRetry_zero_attempts_never_invokes:
  "withRetry (liftRuntime \<lparr> random = (\<lambda>w :: unit. (0, w)), sleep = (\<lambda>d w. w) \<rparr>)
     (logging (\<lambda>w :: unit. (Inl (Primitive (PString ''fail'')) :: thrown + bool, w)))
     (liftRetryOptions (defaultRetryOptions\<lparr> maxAttempts := 0 \<rparr>)) ((), []) =
     (Inl (Primitive PUndefined), ((), [])) \<and>
   \<not> 1 \<le> length ([] :: (thrown + bool) list)"
  by (simp add: withRetry_def withRetry_loop.simps lifted_fields)

text \<open>
  Claim C2, amended. For every operation, runtime and options with
  \<open>maxAttempts \<ge> 1\<close>, \<open>withRetry\<close> invokes the operation at least once and
  at most \<open>maxAttempts\<close> times, and what it settles with is the outcome of the
  last invocation: when every invocation rejects, it rejects with exactly the
  last rejection.
\<close>

theorem withRetry_invocations:
  assumes "1 \<le> maxAttempts opts"
    and "withRetry (liftRuntime rt) (logging fn) (liftRetryOptions opts) (w, []) = (r, (w', lg))"
  shows "1 \<le> length lg \<and> int (length lg) \<le> maxAttempts opts \<and> last lg = r"
proof -
  from retry_loop_log[OF assms(2)[unfolded withRetry_def]] assms(1)
  obtain new where "lg = [] @ new" "int (length new) \<le> max 0 (maxAttempts opts + 1 - 1)"
    "new \<noteq> [] \<and> last new = r" by auto
  then show ?thesis using assms(1) by (cases lg) auto
qed

theorem withRetry_invocations_witness:
  "1 \<le> maxAttempts (defaultRetryOptions :: unit RetryOptions) \<and>
   withRetry (liftRuntime \<lparr> random = (\<lambda>w :: unit. (0, w)), sleep = (\<lambda>d w. w) \<rparr>)
     (logging (\<lambda>w :: unit. (Inl (Primitive (PString ''fail'')) :: thrown + bool, w)))
     (liftRetryOptions defaultRetryOptions) ((), []) =
     (Inl (Primitive (PString ''fail'')),
      ((), [Inl (Primitive (PString ''fail'')), Inl (Primitive (PString ''fail'')), Inl (Primitive (PString ''fail''))])) \<and>
   int (length [Inl (Primitive (PString ''fail'')) :: thrown + bool, Inl (Primitive (PString ''fail'')),
        Inl (Primitive (PString ''fail''))]) \<le> maxAttempts (defaultRetryOptions :: unit RetryOptions)"
proof -
  have h1: "1 \<le> maxAttempts (defaultRetryOptions :: unit RetryOptions)"
    by (simp add: defaultRetryOptions_def DEFAULT_MAX_ATTEMPTS_def)
  have h2: "withRetry (liftRuntime \<lparr> random = (\<lambda>w :: unit. (0, w)), sleep = (\<lambda>d w. w) \<rparr>)
     (logging (\<lambda>w :: unit. (Inl (Primitive (PString ''fail'')) :: thrown + bool, w)))
     (liftRetryOptions defaultRetryOptions) ((), []) =
     (Inl (Primitive (PString ''fail'')),
      ((), [Inl (Primitive (PString ''fail'')), Inl (Primitive (PString ''fail'')), Inl (Primitive (PString ''fail''))]))"
    by (simp add: withRetry_def withRetry_loop.simps lifted_fields lifted_delays lifted_random
        lifted_sleep lifted_onRetry logging_def defaultRetryOptions_def DEFAULT_MAX_ATTEMPTS_def Let_def)
  from withRetry_invocations[OF h1 h2] h1 h2 show ?thesis by simp
qed

lemma uncappedDelay_eq: "uncappedDelay N b r = b * 2 powi (N - 1) * (1 + 0.3 * r)"
  by (simp add: uncappedDelay_def Let_def algebra_simps)

text \<open>
  Claim C8. For an attempt number \<open>N \<ge> 1\<close>, a positive base delay and values
  \<open>r\<close>, \<open>r'\<close> of \<open>Math.random()\<close> in \<open>[0, 1)\<close>, so that the jitters
  \<open>0.3 r\<close> and \<open>0.3 r'\<close> lie in \<open>[0, 0.3)\<close>: the delay is
  \<open>min (baseDelayMs * 2^(N-1) * (1 + jitter)) maxDelayMs\<close>, the delay before
  capping for attempt \<open>N\<close> is at least the one for attempt \<open>N - 1\<close> whatever
  the two jitters are, and the delay returned is at most \<open>maxDelayMs\<close>.
\<close>

theorem backoff_formula_monotone_capped:
  assumes "1 \<le> N" and "0 < b" and "0 \<le> r" and "r < 1" and "0 \<le> r'" and "r' < 1"
  shows "calculateBackoff N b m r = min (b * 2 ^ nat (N - 1) * (1 + 0.3 * r)) m \<and>
         0 \<le> 0.3 * r \<and> 0.3 * r < 0.3 \<and>
         uncappedDelay (N - 1) b r' \<le> uncappedDelay N b r \<and>
         calculateBackoff N b m r \<le> m"
proof -
  have p: "(2::real) powi (N - 1) = 2 ^ nat (N - 1)"
    using assms(1) by (simp add: power_int_def)
  have dbl: "(2::real) powi (N - 1) = 2 * 2 powi (N - 1 - 1)"
    by (simp add: power_int_diff)
  have pos: "0 < (2::real) powi (N - 1 - 1)" by simp
  have "uncappedDelay (N - 1) b r' = b * 2 powi (N - 1 - 1) * (1 + 0.3 * r')"
    by (simp add: uncappedDelay_eq)
  also have "\<dots> \<le> b * 2 powi (N - 1 - 1) * 2"
    using assms(2,6) pos by (intro mult_left_mono) auto
  also have "\<dots> = b * 2 powi (N - 1)" using dbl by simp
  also have "\<dots> \<le> b * 2 powi (N - 1) * (1 + 0.3 * r)"
  proof -
    have "0 \<le> b * 2 powi (N - 1)" using assms(2) by simp
    from mult_left_mono[OF _ this, of 1 "1 + 0.3 * r"] assms(3) show ?thesis by simp
  qed
  also have "\<dots> = uncappedDelay N b r" by (simp add: uncappedDelay_eq)
  finally have mono: "uncappedDelay (N - 1) b r' \<le> uncappedDelay N b r" .
  show ?thesis
    using mono assms(3,4) by (simp add: calculateBackoff_def uncappedDelay_eq p)
qed

theorem backoff_formula_monotone_capped_witness:
  "(1::int) \<le> 2 \<and> (0::real) < 1000 \<and> (0::real) \<le> 1/2 \<and> (1/2 :: real) < 1 \<and>
   calculateBackoff 2 1000 30000 (1/2) = 2300 \<and>
   uncappedDelay 1 1000 (1/2) \<le> uncappedDelay 2 1000 (1/2) \<and>
   calculateBackoff 2 1000 30000 (1/2) \<le> 30000"
proof -
  have h: "(1::int) \<le> 2" "(0::real) < 1000" "(0::real) \<le> 1/2" "(1/2 :: real) < 1" by simp_all
  from backoff_formula_monotone_capped[OF h(1) h(2) h(3) h(4) h(3) h(4), where m = 30000] h
  show ?thesis by simp
qed

section \<open>Properties of the normalizers and the clients\<close>

text \<open>
  Claim C9. \<open>normalizeJiraError\<close> and \<open>normalizeConfluenceError\<close> return an
  \<open>AppError\<close> unchanged, so normalizing twice is normalizing once; and for an
  input that is not an object with a \<open>message\<close> property they return an
  \<open>AppError\<close> with code \<open>UNKNOWN_ERROR\<close> whose cause is the input.
\<close>

theorem normalizers_pass_through_and_wrap:
  "(isAppError e \<longrightarrow> normalizeJiraError e = e \<and> normalizeConfluenceError e = e) \<and>
   normalizeJiraError (normalizeJiraError e) = normalizeJiraError e \<and>
   normalizeConfluenceError (normalizeConfluenceError e) = normalizeConfluenceError e \<and>
   (\<not> isJiraErrorResponse e \<longrightarrow>
      isAppError (normalizeJiraError e) \<and> code (normalizeJiraError e) = UNKNOWN_ERROR \<and>
      cause (normalizeJiraError e) = Some e) \<and>
   (\<not> isConfluenceErrorResponse e \<longrightarrow>
      isAppError (normalizeConfluenceError e) \<and> code (normalizeConfluenceError e) = UNKNOWN_ERROR \<and>
      cause (normalizeConfluenceError e) = Some e)"
proof -
  have j: "isAppError (normalizeJiraError e)"
    by (simp add: normalizeJiraError_def unknown_def jiraApi_def Let_def)
  have c: "isAppError (normalizeConfluenceError e)"
    by (simp add: normalizeConfluenceError_def unknown_def confluenceApi_def Let_def)
  have pj: "\<And>x. isAppError x \<Longrightarrow> normalizeJiraError x = x"
    by (simp add: normalizeJiraError_def)
  have pc: "\<And>x. isAppError x \<Longrightarrow> normalizeConfluenceError x = x"
    by (simp add: normalizeConfluenceError_def)
  have nj: "\<not> isJiraErrorResponse e \<Longrightarrow> \<not> isAppError e"
    by (cases e) (simp_all add: isJiraErrorResponse_def)
  have nc: "\<not> isConfluenceErrorResponse e \<Longrightarrow> \<not> isAppError e"
    by (cases e) (simp_all add: isConfluenceErrorResponse_def)
  have uj: "\<not> isJiraErrorResponse e \<Longrightarrow> normalizeJiraError e = unknown ''Unknown Jira error'' (Some e)"
    using nj by (simp add: normalizeJiraError_def)
  have uc: "\<not> isConfluenceErrorResponse e \<Longrightarrow>
            normalizeConfluenceError e = unknown ''Unknown Confluence error'' (Some e)"
    using nc by (simp add: normalizeConfluenceError_def)
  show ?thesis
    using pj[of e] pc[of e] pj[OF j] pc[OF c] uj uc by (auto simp: unknown_def)
qed

theorem normalizers_pass_through_and_wrap_witness:
  "isAppError (jiraApi ''Already normalized'' (Some 400) None) \<and>
   normalizeJiraError (jiraApi ''Already normalized'' (Some 400) None) =
     jiraApi ''Already normalized'' (Some 400) None \<and>
   \<not> isJiraErrorResponse (Primitive (PString ''string error'')) \<and>
   \<not> isConfluenceErrorResponse (Primitive (PString ''string error'')) \<and>
   normalizeJiraError (Primitive (PString ''string error'')) =
     AppError UNKNOWN_ERROR ''Unknown Jira error'' None None (Some (Primitive (PString ''string error''))) \<and>
   cause (normalizeConfluenceError (Primitive (PString ''string error''))) =
     Some (Primitive (PString ''string error''))"
proof -
  have h1: "isAppError (jiraApi ''Already normalized'' (Some 400) None)"
    by (simp add: jiraApi_def)
  have h2: "\<not> isJiraErrorResponse (Primitive (PString ''string error''))"
    by (simp add: isJiraErrorResponse_def)
  have h3: "\<not> isConfluenceErrorResponse (Primitive (PString ''string error''))"
    by (simp add: isConfluenceErrorResponse_def)
  have v: "normalizeJiraError (Primitive (PString ''string error'')) =
     AppError UNKNOWN_ERROR ''Unknown Jira error'' None None (Some (Primitive (PString ''string error'')))"
    by (simp add: normalizeJiraError_def isJiraErrorResponse_def unknown_def)
  from normalizers_pass_through_and_wrap[of "jiraApi ''Already normalized'' (Some 400) None"]
    normalizers_pass_through_and_wrap[of "Primitive (PString ''string error'')"] h1 h2 h3 v
  show ?thesis by simp
qed

lemma afterCall_fst: "fst (afterCall svc now opts r c w) = r"
  by (simp add: afterCall_def Let_def split: sum.splits prod.splits)

lemma withCircuitBreaker_admitted:
  assumes "beforeCall svc now opts (fst (getCircuit cs svc)) w = (Inr (), c1, w1)"
  shows "fst (withCircuitBreaker cs svc now fn opts w) = fst (fn w1)"
proof -
  obtain c cs1 where g: "getCircuit cs svc = (c, cs1)" by (cases "getCircuit cs svc")
  obtain r w2 where f: "fn w1 = (r, w2)" by (cases "fn w1")
  obtain r' c2 w3 where a: "afterCall svc now opts r c1 w2 = (r', c2, w3)"
    by (cases "afterCall svc now opts r c1 w2")
  have "r' = r" using afterCall_fst[of svc now opts r c1 w2] a by simp
  then show ?thesis using assms g f a by (simp add: withCircuitBreaker_def)
qed

lemma withRetry_first_success:
  assumes "1 \<le> maxAttempts opts" and "operation w = (Inr v, w1)"
  shows "withRetry rt operation opts w = (Inr v, w1)"
  using assms by (simp add: withRetry_def withRetry_loop.simps[of _ _ _ 1])

lemma withRetry_first_failure_final:
  assumes "1 \<le> maxAttempts opts" and "operation w = (Inl e, w1)" and "\<not> shouldRetry opts e 1"
  shows "withRetry rt operation opts w = (Inl e, w1)"
  using assms by (simp add: withRetry_def withRetry_loop.simps[of _ _ _ 1])

lemma html_error_not_retryable:
  "\<not> isRetryableJiraError (jiraApi
      ''Jira search returned HTML (likely a login page). Verify authentication credentials.''
      (Some 401) None)"
  by (simp add: isRetryableJiraError_def isRetryableError_def isNetworkError_def jiraApi_def
      getStatusCode_def getJiraErrorStatus_def responseStatusOrStatus_def isRetryableStatusCode_def
      isJiraErrorResponse_def toLowerCase_def lowerChar_def startsWith_def Let_def)

lemma format_error_not_retryable:
  "\<not> isRetryableJiraError (jiraApi ''Unexpected Jira search response format'' None (Some pe))"
  by (simp add: isRetryableJiraError_def isRetryableError_def isNetworkError_def jiraApi_def
      getStatusCode_def getJiraErrorStatus_def responseStatusOrStatus_def isRetryableStatusCode_def
      isJiraErrorResponse_def toLowerCase_def lowerChar_def startsWith_def Let_def)

lemma JiraClient_execute_fst:
  "fst (JiraClient_execute rt ro bo cs now operation w) =
     map_sum normalizeJiraError id
       (fst (withCircuitBreaker cs JIRA_SERVICE_NAME now (withRetry rt operation ro) bo w))"
  by (simp add: JiraClient_execute_def split: prod.splits sum.splits)

lemma jiraRetryOptions_simps:
  "maxAttempts jiraRetryOptions = 3"
  "shouldRetry jiraRetryOptions e a = isRetryableJiraError e"
  by (simp_all add: jiraRetryOptions_def)

lemma trim_Nil:
  assumes "dropWhile isWhiteSpace s = []"
  shows "trim s = []"
  unfolding trim_def assms by simp

lemma trim_Cons:
  assumes "dropWhile isWhiteSpace s = d # t"
  shows "\<exists>zs. trim s = d # zs"
proof -
  have nd: "\<not> isWhiteSpace d" using assms hd_dropWhile[of isWhiteSpace s] by simp
  have "\<exists>ys. dropWhile isWhiteSpace (rev t @ [d]) = ys @ [d]"
    using nd by (cases "\<forall>x \<in> set (rev t). isWhiteSpace x") (auto simp: dropWhile_append)
  then obtain ys where "dropWhile isWhiteSpace (rev t @ [d]) = ys @ [d]" by blast
  then show ?thesis using assms by (simp add: trim_def)
qed

lemma startsWith_trim:
  assumes "\<not> isWhiteSpace c"
  shows "startsWith (trim s) [c] \<longleftrightarrow>
           (\<exists>ws rest. s = ws @ c # rest \<and> list_all isWhiteSpace ws)"
proof
  assume a: "startsWith (trim s) [c]"
  show "\<exists>ws rest. s = ws @ c # rest \<and> list_all isWhiteSpace ws"
  proof (cases "dropWhile isWhiteSpace s")
    case Nil
    with a show ?thesis by (simp add: trim_Nil startsWith_def)
  next
    case (Cons d t)
    from trim_Cons[OF Cons] obtain zs where "trim s = d # zs" by blast
    with a have "d = c" by (simp add: startsWith_def)
    have "s = takeWhile isWhiteSpace s @ dropWhile isWhiteSpace s" by simp
    then have "s = takeWhile isWhiteSpace s @ c # t" using Cons \<open>d = c\<close> by simp
    moreover have "list_all isWhiteSpace (takeWhile isWhiteSpace s)"
      by (simp add: list_all_iff) (metis set_takeWhileD)
    ultimately show ?thesis by blast
  qed
next
  assume "\<exists>ws rest. s = ws @ c # rest \<and> list_all isWhiteSpace ws"
  then obtain ws rest where s: "s = ws @ c # rest" and w: "list_all isWhiteSpace ws" by blast
  have "dropWhile isWhiteSpace s = c # rest"
    using assms w unfolding s by (simp add: dropWhile_append list_all_iff)
  from trim_Cons[OF this] show "startsWith (trim s) [c]" by (auto simp: startsWith_def)
qed

lemma lt_not_space: "\<not> isWhiteSpace CHR ''<''"
  by (simp add: isWhiteSpace_def)

lemma search_by_trimmed_text:
  assumes resp: "searchFn (searchRequest params) w1 = (Inr (StringResult s), w2)"
    and admitted: "beforeCall JIRA_SERVICE_NAME now breakerOpts (fst (getCircuit cs JIRA_SERVICE_NAME)) w
                     = (Inr (), c1, w1)"
  shows "(startsWith (trim s) ''<'' \<longrightarrow>
            (\<forall>anyParse. searchOperation anyParse searchFn params w1 =
               (Inl (AppError JIRA_API_ERROR
                  ''Jira search returned HTML (likely a login page). Verify authentication credentials.''
                  (Some 401) None None), w2)) \<and>
            fst (JiraClient_search rt jiraRetryOptions breakerOpts cs now parse searchFn params w) =
               Inl (AppError JIRA_API_ERROR
                  ''Jira search returned HTML (likely a login page). Verify authentication credentials.''
                  (Some 401) None None)) \<and>
         (\<not> startsWith (trim s) ''<'' \<longrightarrow>
            (case parse s of
               Inr v \<Rightarrow>
                 searchOperation parse searchFn params w1 = (Inr v, w2) \<and>
                 fst (JiraClient_search rt jiraRetryOptions breakerOpts cs now parse searchFn params w) = Inr v
             | Inl parseError \<Rightarrow>
                 searchOperation parse searchFn params w1 =
                   (Inl (AppError JIRA_API_ERROR ''Unexpected Jira search response format'' None None
                      (Some parseError)), w2) \<and>
                 fst (JiraClient_search rt jiraRetryOptions breakerOpts cs now parse searchFn params w) =
                   Inl (AppError JIRA_API_ERROR ''Unexpected Jira search response format'' None None
                      (Some parseError))))"
proof -
  let ?html = "jiraApi ''Jira search returned HTML (likely a login page). Verify authentication credentials.''
      (Some 401) None"
  have through: "\<And>op. fst (JiraClient_search rt jiraRetryOptions breakerOpts cs now parse searchFn params w) =
      map_sum normalizeJiraError id
        (fst (withRetry rt (searchOperation parse searchFn params) jiraRetryOptions w1))"
    by (simp add: JiraClient_search_def JiraClient_execute_fst withCircuitBreaker_admitted[OF admitted])
  show ?thesis
  proof (cases "startsWith (trim s) ''<''")
    case True
    have op: "\<And>p. searchOperation p searchFn params w1 = (Inl ?html, w2)"
      using resp True by (simp add: searchOperation_def)
    have "withRetry rt (searchOperation parse searchFn params) jiraRetryOptions w1 = (Inl ?html, w2)"
      by (rule withRetry_first_failure_final[where operation = "searchOperation parse searchFn params"
              and w = w1, OF _ op])
           (simp_all add: jiraRetryOptions_simps html_error_not_retryable)
    then have "fst (JiraClient_search rt jiraRetryOptions breakerOpts cs now parse searchFn params w) = Inl ?html"
      by (simp add: through normalizeJiraError_def jiraApi_def)
    with True op show ?thesis by (simp add: jiraApi_def)
  next
    case False
    show ?thesis
    proof (cases "parse s")
      case (Inr v)
      have op: "searchOperation parse searchFn params w1 = (Inr v, w2)"
        using resp False Inr by (simp add: searchOperation_def)
      have "withRetry rt (searchOperation parse searchFn params) jiraRetryOptions w1 = (Inr v, w2)"
        by (rule withRetry_first_success[where operation = "searchOperation parse searchFn params"
                and w = w1, OF _ op]) (simp add: jiraRetryOptions_simps)
      then show ?thesis using False Inr op by (simp add: through)
    next
      case (Inl pe)
      let ?fmt = "jiraApi ''Unexpected Jira search response format'' None (Some pe)"
      have op: "searchOperation parse searchFn params w1 = (Inl ?fmt, w2)"
        using resp False Inl by (simp add: searchOperation_def)
      have "withRetry rt (searchOperation parse searchFn params) jiraRetryOptions w1 = (Inl ?fmt, w2)"
        by (rule withRetry_first_failure_final[where operation = "searchOperation parse searchFn params"
                and w = w1, OF _ op])
             (simp_all add: jiraRetryOptions_simps format_error_not_retryable)
      then have "fst (JiraClient_search rt jiraRetryOptions breakerOpts cs now parse searchFn params w) = Inl ?fmt"
        by (simp add: through normalizeJiraError_def jiraApi_def)
      with False Inl op show ?thesis by (simp add: jiraApi_def)
    qed
  qed
qed

text \<open>
  Claim C7. Let the underlying search call resolve with a string \<open>s\<close>, in a
  call that the breaker admits. If \<open>s\<close> is white space followed by \<open><\<close>, the
  operation rejects with the \<open>JIRA_API_ERROR\<close> of status 401 whatever the
  parser is (it is not consulted), and so does \<open>search\<close> with the retry
  options of the client. Otherwise \<open>s\<close> is parsed: \<open>search\<close> returns the
  parsed value, or, when parsing throws, rejects with the \<open>JIRA_API_ERROR\<close>
  \<open>Unexpected Jira search response format\<close> that carries the parse error as
  its cause.
\<close>

theorem search_html_is_401_else_parse:
  assumes resp: "searchFn (searchRequest params) w1 = (Inr (StringResult s), w2)"
    and admitted: "beforeCall JIRA_SERVICE_NAME now breakerOpts (fst (getCircuit cs JIRA_SERVICE_NAME)) w
                     = (Inr (), c1, w1)"
  shows "((\<exists>ws rest. s = ws @ CHR ''<'' # rest \<and> list_all isWhiteSpace ws) \<longrightarrow>
            (\<forall>anyParse. searchOperation anyParse searchFn params w1 =
               (Inl (AppError JIRA_API_ERROR
                  ''Jira search returned HTML (likely a login page). Verify authentication credentials.''
                  (Some 401) None None), w2)) \<and>
            fst (JiraClient_search rt jiraRetryOptions breakerOpts cs now parse searchFn params w) =
               Inl (AppError JIRA_API_ERROR
                  ''Jira search returned HTML (likely a login page). Verify authentication credentials.''
                  (Some 401) None None)) \<and>
         (\<not> (\<exists>ws rest. s = ws @ CHR ''<'' # rest \<and> list_all isWhiteSpace ws) \<longrightarrow>
            (case parse s of
               Inr v \<Rightarrow>
                 searchOperation parse searchFn params w1 = (Inr v, w2) \<and>
                 fst (JiraClient_search rt jiraRetryOptions breakerOpts cs now parse searchFn params w) = Inr v
             | Inl parseError \<Rightarrow>
                 searchOperation parse searchFn params w1 =
                   (Inl (AppError JIRA_API_ERROR ''Unexpected Jira search response format'' None None
                      (Some parseError)), w2) \<and>
                 fst (JiraClient_search rt jiraRetryOptions breakerOpts cs now parse searchFn params w) =
                   Inl (AppError JIRA_API_ERROR ''Unexpected Jira search response format'' None None
                      (Some parseError))))"
proof -
  have eq: "(\<exists>ws rest. s = ws @ CHR ''<'' # rest \<and> list_all isWhiteSpace ws) = startsWith (trim s) ''<''"
    using startsWith_trim[OF lt_not_space, of s] by simp
  show ?thesis
    unfolding eq
    by (rule search_by_trimmed_text[where searchFn = searchFn and params = params and ?w1.0 = w1
          and ?w2.0 = w2 and s = s, OF resp admitted])
qed

lemma admitted_when_new:
  "beforeCall svc now opts (fst (getCircuit Map.empty svc)) w = (Inr (), newCircuit, w)"
  by (simp add: beforeCall_def getCircuit_def newCircuit_def)

theorem search_html_is_401_else_parse_witness:
  "list_all isWhiteSpace [CHR 0xA0, CHR 0x0A, CHR '' ''] \<and>
   fst (JiraClient_search \<lparr> random = (\<lambda>w. (0, w)), sleep = (\<lambda>d w. w) \<rparr>
          jiraRetryOptions jiraCircuitBreakerOptions Map.empty 0 (\<lambda>s. Inr 0)
          (\<lambda>(req :: search_request) (w :: unit).
             (Inr (StringResult ([CHR 0xA0, CHR 0x0A, CHR '' ''] @ CHR ''<'' # ''html>login</html>''))
                :: thrown + nat sdk_result, w))
          \<lparr> jql = ''project = X'', maxResults = None, startAt = None,
            fields_param = None, expand_param = None \<rparr> ()) =
     Inl (AppError JIRA_API_ERROR
            ''Jira search returned HTML (likely a login page). Verify authentication credentials.''
            (Some 401) None None) \<and>
   \<not> startsWith (trim ''  not json'') ''<'' \<and>
   fst (JiraClient_search \<lparr> random = (\<lambda>w. (0, w)), sleep = (\<lambda>d w. w) \<rparr>
          jiraRetryOptions jiraCircuitBreakerOptions Map.empty 0
          (\<lambda>s. Inl (Primitive (PString ''SyntaxError'')))
          (\<lambda>(req :: search_request) (w :: unit). (Inr (StringResult ''  not json'') :: thrown + nat sdk_result, w))
          \<lparr> jql = ''project = X'', maxResults = None, startAt = None,
            fields_param = None, expand_param = None \<rparr> ()) =
     Inl (AppError JIRA_API_ERROR ''Unexpected Jira search response format'' None None
            (Some (Primitive (PString ''SyntaxError'')))) \<and>
   fst (JiraClient_search \<lparr> random = (\<lambda>w. (0, w)), sleep = (\<lambda>d w. w) \<rparr>
          jiraRetryOptions jiraCircuitBreakerOptions Map.empty 0
          (\<lambda>s. if s = ''  not json'' then Inr 7 else Inl (Primitive (PString ''SyntaxError'')))
          (\<lambda>(req :: search_request) (w :: unit). (Inr (StringResult ''  not json'') :: thrown + nat sdk_result, w))
          \<lparr> jql = ''project = X'', maxResults = None, startAt = None,
            fields_param = None, expand_param = None \<rparr> ()) = Inr 7"
proof -
  let ?params = "\<lparr> jql = ''project = X'', maxResults = None, startAt = None,
                        fields_param = None, expand_param = None \<rparr>"
  let ?s1 = "[CHR 0xA0, CHR 0x0A, CHR '' ''] @ CHR ''<'' # ''html>login</html>''"
  let ?html = "\<lambda>(req :: search_request) (w :: unit). (Inr (StringResult ?s1) :: thrown + nat sdk_result, w)"
  let ?text = "\<lambda>(req :: search_request) (w :: unit). (Inr (StringResult ''  not json'') :: thrown + nat sdk_result, w)"
  let ?rt = "\<lparr> random = (\<lambda>w :: unit. (0 :: real, w)), sleep = (\<lambda>(d :: real) (w :: unit). w) \<rparr>"
  have r1: "?html (searchRequest ?params) () = (Inr (StringResult ?s1), ())" by simp
  have r2: "?text (searchRequest ?params) () = (Inr (StringResult ''  not json''), ())" by simp
  have adm: "beforeCall JIRA_SERVICE_NAME 0 (jiraCircuitBreakerOptions :: unit CircuitBreakerOptions)
               (fst (getCircuit Map.empty JIRA_SERVICE_NAME)) () = (Inr (), newCircuit, ())"
    by (rule admitted_when_new)
  have ws: "list_all isWhiteSpace [CHR 0xA0, CHR 0x0A, CHR '' '']"
    by (simp add: isWhiteSpace_def)
  have h1: "\<exists>ws rest. ?s1 = ws @ CHR ''<'' # rest \<and> list_all isWhiteSpace ws"
    using ws by blast
  have n2: "\<not> startsWith (trim ''  not json'') ''<''"
    by (simp add: startsWith_def trim_def isWhiteSpace_def)
  have h2: "\<not> (\<exists>ws rest. ''  not json'' = ws @ CHR ''<'' # rest \<and> list_all isWhiteSpace ws)"
    using n2 startsWith_trim[OF lt_not_space, of "''  not json''"] by simp
  from search_html_is_401_else_parse[where searchFn = ?html and params = ?params and ?w1.0 = "()"
      and ?w2.0 = "()" and s = ?s1 and rt = ?rt and parse = "\<lambda>s. Inr 0", OF r1 adm]
    search_html_is_401_else_parse[where searchFn = ?text and params = ?params and ?w1.0 = "()"
      and ?w2.0 = "()" and s = "''  not json''" and rt = ?rt
      and parse = "\<lambda>s. Inl (Primitive (PString ''SyntaxError''))", OF r2 adm]
    search_html_is_401_else_parse[where searchFn = ?text and params = ?params and ?w1.0 = "()"
      and ?w2.0 = "()" and s = "''  not json''" and rt = ?rt
      and parse = "\<lambda>s. if s = ''  not json'' then Inr 7 else Inl (Primitive (PString ''SyntaxError''))",
      OF r2 adm]
    ws h1 h2 n2
  show ?thesis by simp
qed

lemma ConfluenceClient_execute_fst:
  "fst (ConfluenceClient_execute rt ro bo cs now operation w) =
     map_sum normalizeConfluenceError id
       (fst (withCircuitBreaker cs CONFLUENCE_SERVICE_NAME now (withRetry rt operation ro) bo w))"
  by (simp add: ConfluenceClient_execute_def split: prod.splits sum.splits)

text \<open>
  Claim C10. For every space key and title: in a call that the breaker admits,
  with retry options that allow at least one attempt, when the content lookup
  resolves with the list \<open>results\<close>, \<open>getPageByTitle\<close> returns \<open>null\<close> if
  the list is empty and its first element otherwise; the lookup is made with
  the space key and the title of the parameters.
\<close>

theorem getPageByTitle_null_or_first:
  assumes "1 \<le> maxAttempts retryOpts"
    and "beforeCall CONFLUENCE_SERVICE_NAME now breakerOpts (fst (getCircuit cs CONFLUENCE_SERVICE_NAME)) w
           = (Inr (), c1, w1)"
    and "getContent (contentRequest params) w1 = (Inr results, w2)"
  shows "getPageByTitleOperation getContent params w1 =
           (Inr (case results of [] \<Rightarrow> None | page # _ \<Rightarrow> Some page), w2) \<and>
         fst (ConfluenceClient_getPageByTitle rt retryOpts breakerOpts cs now getContent params w) =
           Inr (case results of [] \<Rightarrow> None | page # _ \<Rightarrow> Some page) \<and>
         request_spaceKey (contentRequest params) = spaceKey params \<and>
         request_title (contentRequest params) = title params"
proof -
  have op: "getPageByTitleOperation getContent params w1 =
              (Inr (case results of [] \<Rightarrow> None | page # _ \<Rightarrow> Some page), w2)"
    using assms(3) by (cases results) (simp_all add: getPageByTitleOperation_def)
  have "withRetry rt (getPageByTitleOperation getContent params) retryOpts w1 =
          (Inr (case results of [] \<Rightarrow> None | page # _ \<Rightarrow> Some page), w2)"
    by (rule withRetry_first_success[where operation = "getPageByTitleOperation getContent params"
          and w = w1, OF assms(1) op])
  then show ?thesis
    using op
    by (simp add: ConfluenceClient_getPageByTitle_def ConfluenceClient_execute_fst
        withCircuitBreaker_admitted[OF assms(2)] contentRequest_def Let_def)
qed

theorem getPageByTitle_null_or_first_witness:
  "1 \<le> maxAttempts (confluenceRetryOptions :: unit RetryOptions) \<and>
   fst (ConfluenceClient_getPageByTitle \<lparr> random = (\<lambda>w. (0, w)), sleep = (\<lambda>d w. w) \<rparr>
          confluenceRetryOptions confluenceCircuitBreakerOptions Map.empty 0
          (\<lambda>(req :: content_request) (w :: unit). (Inr [] :: thrown + string list, w))
          \<lparr> spaceKey = ''DOC'', title = ''Home'', limit = None, content_expand = None \<rparr> ()) = Inr None \<and>
   fst (ConfluenceClient_getPageByTitle \<lparr> random = (\<lambda>w. (0, w)), sleep = (\<lambda>d w. w) \<rparr>
          confluenceRetryOptions confluenceCircuitBreakerOptions Map.empty 0
          (\<lambda>(req :: content_request) (w :: unit). (Inr [''page 1'', ''page 2''] :: thrown + string list, w))
          \<lparr> spaceKey = ''DOC'', title = ''Home'', limit = None, content_expand = None \<rparr> ()) =
     Inr (Some ''page 1'')"
proof -
  let ?params = "\<lparr> spaceKey = ''DOC'', title = ''Home'', limit = None, content_expand = None \<rparr>"
  let ?none = "\<lambda>(req :: content_request) (w :: unit). (Inr [] :: thrown + string list, w)"
  let ?two = "\<lambda>(req :: content_request) (w :: unit). (Inr [''page 1'', ''page 2''] :: thrown + string list, w)"
  let ?rt = "\<lparr> random = (\<lambda>w :: unit. (0 :: real, w)), sleep = (\<lambda>(d :: real) (w :: unit). w) \<rparr>"
  have h1: "1 \<le> maxAttempts (confluenceRetryOptions :: unit RetryOptions)"
    by (simp add: confluenceRetryOptions_def)
  have adm: "beforeCall CONFLUENCE_SERVICE_NAME 0 (confluenceCircuitBreakerOptions :: unit CircuitBreakerOptions)
               (fst (getCircuit Map.empty CONFLUENCE_SERVICE_NAME)) () = (Inr (), newCircuit, ())"
    by (rule admitted_when_new)
  have r1: "?none (contentRequest ?params) () = (Inr [], ())" by simp
  have r2: "?two (contentRequest ?params) () = (Inr [''page 1'', ''page 2''], ())" by simp
  from getPageByTitle_null_or_first[where getContent = ?none and params = ?params and ?w1.0 = "()"
      and ?w2.0 = "()" and results = "[]" and rt = ?rt, OF h1 adm r1]
    getPageByTitle_null_or_first[where getContent = ?two and params = ?params and ?w1.0 = "()"
      and ?w2.0 = "()" and results = "[''page 1'', ''page 2'']" and rt = ?rt, OF h1 adm r2] h1
  show ?thesis by simp
qed

section \<open>Properties of field resolution\<close>

lemma findByCandidates_concat:
  "findByCandidates fs candidates =
     (case concat (map (\<lambda>candidate. filter (candidateMatches candidate) fs) candidates) of
        [] \<Rightarrow> None | f # _ \<Rightarrow> Some (field_id f))"
proof (induction candidates)
  case Nil
  then show ?case by simp
next
  case (Cons c cs)
  show ?case
  proof (cases "filter (candidateMatches c) fs")
    case Nil
    then have "find (candidateMatches c) fs = None"
      by (simp add: find_None_iff filter_empty_conv)
    with Nil Cons show ?thesis by simp
  next
    case (Cons f rest)
    then have "find (candidateMatches c) fs = Some f"
      by (induction fs) (auto split: if_splits)
    with Cons show ?thesis by simp
  qed
qed

lemma findByPatterns_concat:
  "findByPatterns fs patterns =
     (case concat (map (\<lambda>p. filter (\<lambda>f. test p (field_name f)) fs) patterns) of
        [] \<Rightarrow> None | f # _ \<Rightarrow> Some (field_id f))"
proof (induction patterns)
  case Nil
  then show ?case by simp
next
  case (Cons p ps)
  show ?case
  proof (cases "filter (\<lambda>f. test p (field_name f)) fs")
    case Nil
    then have "find (\<lambda>f. test p (field_name f)) fs = None"
      by (simp add: find_None_iff filter_empty_conv)
    with Nil Cons show ?thesis by simp
  next
    case (Cons f rest)
    then have "find (\<lambda>f. test p (field_name f)) fs = Some f"
      by (induction fs) (auto split: if_splits)
    with Cons show ?thesis by simp
  qed
qed

lemma concat_map_Nil: "concat (map (\<lambda>_. []) xs) = []"
  by (induction xs) simp_all

lemma discover_is_firstMatch:
  "fst (discoverFieldId svc logicalName w) =
     firstMatch_spec (fst (getFields svc w))
       (getCandidatesForField (config svc) logicalName) (getPatternsForField logicalName)"
proof -
  obtain fs svc1 w1 where g: "getFields svc w = (fs, svc1, w1)" by (cases "getFields svc w")
  have cfg: "config svc1 = config svc"
    using g by (auto simp: getFields_def split: option.splits prod.splits sum.splits)
  show ?thesis
  proof (cases "fs = []")
    case True
    then show ?thesis
      by (simp add: discoverFieldId_def g firstMatch_spec_def matchesInOrder_def concat_map_Nil)
  next
    case False
    define A where "A = concat (map (\<lambda>candidate. filter (candidateMatches candidate) fs)
                          (getCandidatesForField (config svc) logicalName))"
    define B where "B = concat (map (\<lambda>p. filter (\<lambda>f. test p (field_name f)) fs)
                          (getPatternsForField logicalName))"
    have c: "findByCandidates fs (getCandidatesForField (config svc) logicalName) =
               (case A of [] \<Rightarrow> None | f # _ \<Rightarrow> Some (field_id f))"
      by (simp add: findByCandidates_concat A_def)
    have p: "findByPatterns fs (getPatternsForField logicalName) =
               (case B of [] \<Rightarrow> None | f # _ \<Rightarrow> Some (field_id f))"
      by (simp add: findByPatterns_concat B_def)
    have spec: "firstMatch_spec fs (getCandidatesForField (config svc) logicalName)
                  (getPatternsForField logicalName) =
                (case A @ B of [] \<Rightarrow> None | f # _ \<Rightarrow> Some (field_id f))"
      by (simp add: firstMatch_spec_def matchesInOrder_def A_def B_def)
    have code: "fst (discoverFieldId svc logicalName w) =
                (case (case A of [] \<Rightarrow> None | f # _ \<Rightarrow> Some (field_id f)) of
                   Some i \<Rightarrow> Some i
                 | None \<Rightarrow> (case B of [] \<Rightarrow> None | f # _ \<Rightarrow> Some (field_id f)))"
      using False by (simp add: discoverFieldId_def g cfg Let_def c p split: option.splits)
    show ?thesis
      unfolding code g fst_conv spec by (cases A; cases B) simp_all
  qed
qed

text \<open>
  Claim C4, as stated, fails for a mapping whose entry is the empty string: the
  test \<open>if (configuredId)\<close> takes it for no entry, the catalog is fetched
  (\<open>listFields\<close> is invoked once) and the identifier found in the catalog is
  returned.
\<close>

theorem resolveFieldId_empty_mapping_fetches_catalog:
  "resolveFieldId
     \<lparr> config = \<lparr> fieldMapping = Some [Acceptance \<mapsto> ''''], acceptanceFieldCandidates = None,
                    epicFieldCandidates = None \<rparr>,
       client_listFields = Some (counting (\<lambda>w :: unit.
         (Inr [\<lparr> field_id = ''customfield_10001'', field_name = ''Acceptance Criteria'' \<rparr>], w))),
       cachedFields = None \<rparr>
     Acceptance ((), 0) =
   (Some ''customfield_10001'',
    \<lparr> config = \<lparr> fieldMapping = Some [Acceptance \<mapsto> ''''], acceptanceFieldCandidates = None,
                   epicFieldCandidates = None \<rparr>,
      client_listFields = Some (counting (\<lambda>w :: unit.
         (Inr [\<lparr> field_id = ''customfield_10001'', field_name = ''Acceptance Criteria'' \<rparr>], w))),
      cachedFields = Some [\<lparr> field_id = ''customfield_10001'', field_name = ''Acceptance Criteria'' \<rparr>] \<rparr>,
    ((), 1))"
  by (simp add: resolveFieldId_def configuredId_def discoverFieldId_def getFields_def counting_def
      getCandidatesForField_def getPatternsForField_def candidateMatches_def toLowerCase_def
      lowerChar_def Let_def)

text \<open>
  Claim C4, amended. When the entry of the logical name in \<open>fieldMapping\<close> is a
  non-empty string, \<open>resolveFieldId\<close> returns it and leaves the service and the
  world as they were, so \<open>listFields\<close> is not invoked, whatever the catalog
  holds. When there is no entry, or the entry is the empty string, the result is
  the first match in the order of the specification: exact matches of a
  candidate with the name or the identifier of a field, ignoring case, then
  matches of a pattern with the name of a field; \<open>undefined\<close> if there is none.
\<close>

theorem resolveFieldId_precedence_and_fallback:
  "(configuredId (config svc) logicalName = Some cid \<and> cid \<noteq> [] \<longrightarrow>
      resolveFieldId svc logicalName w = (Some cid, svc, w)) \<and>
   (configuredId (config svc) logicalName = None \<or> configuredId (config svc) logicalName = Some [] \<longrightarrow>
      fst (resolveFieldId svc logicalName w) =
        firstMatch_spec (fst (getFields svc w))
          (getCandidatesForField (config svc) logicalName) (getPatternsForField logicalName))"
  using discover_is_firstMatch[of svc logicalName w]
  by (auto simp: resolveFieldId_def)

theorem resolveFieldId_precedence_and_fallback_witness:
  "configuredId \<lparr> fieldMapping = Some [Epic \<mapsto> ''customfield_epic''], acceptanceFieldCandidates = None,
                   epicFieldCandidates = None \<rparr> Epic = Some ''customfield_epic'' \<and>
   resolveFieldId
     \<lparr> config = \<lparr> fieldMapping = Some [Epic \<mapsto> ''customfield_epic''], acceptanceFieldCandidates = None,
                    epicFieldCandidates = None \<rparr>,
       client_listFields = Some (counting (\<lambda>w :: unit.
         (Inr [\<lparr> field_id = ''customfield_10100'', field_name = ''Epic Link'' \<rparr>], w))),
       cachedFields = None \<rparr>
     Epic ((), 0) =
   (Some ''customfield_epic'',
    \<lparr> config = \<lparr> fieldMapping = Some [Epic \<mapsto> ''customfield_epic''], acceptanceFieldCandidates = None,
                    epicFieldCandidates = None \<rparr>,
       client_listFields = Some (counting (\<lambda>w :: unit.
         (Inr [\<lparr> field_id = ''customfield_10100'', field_name = ''Epic Link'' \<rparr>], w))),
       cachedFields = None \<rparr>,
    ((), 0)) \<and>
   configuredId \<lparr> fieldMapping = Some Map.empty, acceptanceFieldCandidates = None,
                   epicFieldCandidates = None \<rparr> Acceptance = None \<and>
   fst (resolveFieldId
     \<lparr> config = \<lparr> fieldMapping = Some Map.empty, acceptanceFieldCandidates = None,
                    epicFieldCandidates = None \<rparr>,
       client_listFields = Some (\<lambda>w :: unit.
         (Inr [\<lparr> field_id = ''customfield_10200'', field_name = ''Description'' \<rparr>,
               \<lparr> field_id = ''customfield_10300'', field_name = ''UAT Acceptance Notes'' \<rparr>], w)),
       cachedFields = None \<rparr>
     Acceptance ()) = Some ''customfield_10300''"
proof -
  let ?cfg1 = "\<lparr> fieldMapping = Some [Epic \<mapsto> ''customfield_epic''], acceptanceFieldCandidates = None,
                   epicFieldCandidates = None \<rparr>"
  let ?svc1 = "\<lparr> config = ?cfg1,
       client_listFields = Some (counting (\<lambda>w :: unit.
         (Inr [\<lparr> field_id = ''customfield_10100'', field_name = ''Epic Link'' \<rparr>], w))),
       cachedFields = None \<rparr>"
  let ?cfg2 = "\<lparr> fieldMapping = Some Map.empty, acceptanceFieldCandidates = None,
                   epicFieldCandidates = None \<rparr>"
  let ?svc2 = "\<lparr> config = ?cfg2,
       client_listFields = Some (\<lambda>w :: unit.
         (Inr [\<lparr> field_id = ''customfield_10200'', field_name = ''Description'' \<rparr>,
               \<lparr> field_id = ''customfield_10300'', field_name = ''UAT Acceptance Notes'' \<rparr>], w)),
       cachedFields = None \<rparr>"
  have h1: "configuredId (config ?svc1) Epic = Some ''customfield_epic'' \<and> ''customfield_epic'' \<noteq> []"
    by (simp add: configuredId_def)
  have h2: "configuredId (config ?svc2) Acceptance = None \<or> configuredId (config ?svc2) Acceptance = Some []"
    by (simp add: configuredId_def)
  have v: "firstMatch_spec (fst (getFields ?svc2 ()))
             (getCandidatesForField (config ?svc2) Acceptance) (getPatternsForField Acceptance) =
           Some ''customfield_10300''"
    by code_simp
  from resolveFieldId_precedence_and_fallback[where svc = ?svc1 and logicalName = Epic
      and cid = "''customfield_epic''" and w = "((), 0)"]
    resolveFieldId_precedence_and_fallback[where svc = ?svc2 and logicalName = Acceptance
      and cid = "[]" and w = "()"]
    h1 h2 v
  show ?thesis by (simp add: configuredId_def)
qed

section \<open>Properties of the creation fallback\<close>

lemma filterBoolean_append: "filterBoolean (xs @ ys) = filterBoolean xs @ filterBoolean ys"
  by (simp add: filterBoolean_def)

lemma filterBoolean_defaults: "filterBoolean (map Some EPIC_FIELD_DEFAULTS) = EPIC_FIELD_DEFAULTS"
  by (simp add: filterBoolean_def EPIC_FIELD_DEFAULTS_def)

lemma filterBoolean_nonempty: "s \<in> set (filterBoolean xs) \<Longrightarrow> s \<noteq> []"
  by (auto simp add: filterBoolean_def split: option.splits if_splits)

text \<open>The epic candidates end with the three built-in fields, so there are at
  least three of them, and none is the empty string.\<close>

lemma epicFieldCandidatesOf_defaults:
  "\<exists>more. epicFieldCandidatesOf inp = more @ EPIC_FIELD_DEFAULTS"
  unfolding epicFieldCandidatesOf_def
  by (simp only: filterBoolean_append[symmetric] append_assoc[symmetric])
     (simp only: filterBoolean_append filterBoolean_defaults, blast)

lemma epicFieldCandidatesOf_length: "3 \<le> length (epicFieldCandidatesOf inp)"
proof -
  obtain more where "epicFieldCandidatesOf inp = more @ EPIC_FIELD_DEFAULTS"
    using epicFieldCandidatesOf_defaults by blast
  then show ?thesis by (simp add: EPIC_FIELD_DEFAULTS_def)
qed

lemma epicFieldCandidatesOf_nonempty: "f \<in> set (epicFieldCandidatesOf inp) \<Longrightarrow> f \<noteq> []"
  unfolding epicFieldCandidatesOf_def by (rule filterBoolean_nonempty)

lemma adjustAcceptance_keeps_epic:
  "epicFieldId (fst (adjustAcceptance inp error st)) = epicFieldId st"
  "epicFieldIndex (fst (adjustAcceptance inp error st)) = epicFieldIndex st"
  "includeEpic (fst (adjustAcceptance inp error st)) = includeEpic st"
  "epicAsString (fst (adjustAcceptance inp error st)) = epicAsString st"
  by (simp_all add: adjustAcceptance_def Let_def split: option.splits)

lemma requiresString_acceptance:
  "requiresString error (fst (adjustAcceptance inp error st)) f = requiresString error st f"
  by (simp add: requiresString_def adjustAcceptance_keeps_epic)

lemma adjustAfterRejection_fst:
  "fst (adjustAfterRejection inp error st) = fst (adjustEpic inp error (fst (adjustAcceptance inp error st)))"
  by (simp add: adjustAfterRejection_def split: prod.splits)

lemma adjustAfterRejection_snd:
  "snd (adjustEpic inp error (fst (adjustAcceptance inp error st))) \<Longrightarrow> snd (adjustAfterRejection inp error st)"
  by (cases "adjustAcceptance inp error st"; cases "adjustEpic inp error (fst (adjustAcceptance inp error st))")
     (simp add: adjustAfterRejection_def)

lemma epic_to_string:
  assumes "includeEpic st" and "epicFieldId st = Some f" and "f \<noteq> []"
    and "requiresString error st f"
  shows "snd (adjustAfterRejection inp error st)"
    and "includeEpic (fst (adjustAfterRejection inp error st))"
    and "epicFieldId (fst (adjustAfterRejection inp error st)) = Some f"
    and "epicFieldIndex (fst (adjustAfterRejection inp error st)) = epicFieldIndex st"
    and "epicAsString (fst (adjustAfterRejection inp error st))"
proof -
  let ?st1 = "fst (adjustAcceptance inp error st)"
  have e: "adjustEpic inp error ?st1 = (?st1\<lparr> epicAsString := True \<rparr>, True)"
    using assms by (simp add: adjustEpic_def adjustAcceptance_keeps_epic requiresString_acceptance)
  show "snd (adjustAfterRejection inp error st)"
    by (rule adjustAfterRejection_snd) (simp add: e)
  show "includeEpic (fst (adjustAfterRejection inp error st))"
    using assms(1) by (simp add: adjustAfterRejection_fst e adjustAcceptance_keeps_epic)
  show "epicFieldId (fst (adjustAfterRejection inp error st)) = Some f"
    using assms(2) by (simp add: adjustAfterRejection_fst e adjustAcceptance_keeps_epic)
  show "epicFieldIndex (fst (adjustAfterRejection inp error st)) = epicFieldIndex st"
    by (simp add: adjustAfterRejection_fst e adjustAcceptance_keeps_epic)
  show "epicAsString (fst (adjustAfterRejection inp error st))"
    by (simp add: adjustAfterRejection_fst e)
qed

lemma epic_next_candidate:
  assumes "includeEpic st" and "epicFieldId st = Some f" and "f \<noteq> []"
    and "\<not> requiresString error st f" and "truthyProperty (getProperty (fieldErrorsOf error) f)"
    and "Suc (epicFieldIndex st) < length (epicFieldCandidatesOf inp)"
  shows "snd (adjustAfterRejection inp error st)"
    and "includeEpic (fst (adjustAfterRejection inp error st))"
    and "epicFieldId (fst (adjustAfterRejection inp error st)) =
           Some (epicFieldCandidatesOf inp ! Suc (epicFieldIndex st))"
    and "epicFieldIndex (fst (adjustAfterRejection inp error st)) = Suc (epicFieldIndex st)"
    and "epicAsString (fst (adjustAfterRejection inp error st)) =
           (epicFieldCandidatesOf inp ! Suc (epicFieldIndex st) \<in> epicStringFieldSet inp)"
proof -
  let ?st1 = "fst (adjustAcceptance inp error st)"
  let ?n = "Suc (epicFieldIndex st)"
  have e: "adjustEpic inp error ?st1 =
             (?st1\<lparr> epicFieldIndex := ?n, epicFieldId := Some (epicFieldCandidatesOf inp ! ?n),
                     epicAsString := (epicFieldCandidatesOf inp ! ?n \<in> epicStringFieldSet inp) \<rparr>, True)"
    using assms by (simp add: adjustEpic_def adjustAcceptance_keeps_epic requiresString_acceptance Let_def)
  show "snd (adjustAfterRejection inp error st)"
    by (rule adjustAfterRejection_snd) (simp add: e)
  show "includeEpic (fst (adjustAfterRejection inp error st))"
    using assms(1) by (simp add: adjustAfterRejection_fst e adjustAcceptance_keeps_epic)
  show "epicFieldId (fst (adjustAfterRejection inp error st)) = Some (epicFieldCandidatesOf inp ! ?n)"
    by (simp add: adjustAfterRejection_fst e)
  show "epicFieldIndex (fst (adjustAfterRejection inp error st)) = ?n"
    by (simp add: adjustAfterRejection_fst e)
  show "epicAsString (fst (adjustAfterRejection inp error st)) =
           (epicFieldCandidatesOf inp ! ?n \<in> epicStringFieldSet inp)"
    by (simp add: adjustAfterRejection_fst e)
qed

lemma epic_dropped:
  assumes "includeEpic st" and "epicFieldId st = Some f" and "f \<noteq> []"
    and "\<not> requiresString error st f" and "truthyProperty (getProperty (fieldErrorsOf error) f)"
    and "\<not> Suc (epicFieldIndex st) < length (epicFieldCandidatesOf inp)"
  shows "snd (adjustAfterRejection inp error st)"
    and "\<not> includeEpic (fst (adjustAfterRejection inp error st))"
proof -
  let ?st1 = "fst (adjustAcceptance inp error st)"
  have e: "adjustEpic inp error ?st1 = (?st1\<lparr> includeEpic := False \<rparr>, True)"
    using assms by (simp add: adjustEpic_def adjustAcceptance_keeps_epic requiresString_acceptance Let_def)
  show "snd (adjustAfterRejection inp error st)"
    by (rule adjustAfterRejection_snd) (simp add: e)
  show "\<not> includeEpic (fst (adjustAfterRejection inp error st))"
    by (simp add: adjustAfterRejection_fst e)
qed

text \<open>Whatever the rejection, the state after the \<open>catch\<close> block either still
  includes the epic, under a candidate whose index has grown by at most one, or
  the candidate before was the last one.\<close>

lemma adjustAfterRejection_epic:
  assumes "includeEpic st" and "epicFieldIndex st < length (epicFieldCandidatesOf inp)"
    and "epicFieldId st = Some (epicFieldCandidatesOf inp ! epicFieldIndex st)"
  shows "(includeEpic (fst (adjustAfterRejection inp error st)) \<and>
          epicFieldIndex (fst (adjustAfterRejection inp error st)) \<le> Suc (epicFieldIndex st) \<and>
          epicFieldIndex (fst (adjustAfterRejection inp error st)) < length (epicFieldCandidatesOf inp) \<and>
          epicFieldId (fst (adjustAfterRejection inp error st)) =
            Some (epicFieldCandidatesOf inp ! epicFieldIndex (fst (adjustAfterRejection inp error st))))
         \<or> length (epicFieldCandidatesOf inp) \<le> Suc (epicFieldIndex st)"
  using assms
  by (auto simp add: adjustAfterRejection_fst adjustEpic_def adjustAcceptance_keeps_epic Let_def
      split: option.splits)

lemma assignField_value:
  "k \<noteq> ''__proto__'' \<Longrightarrow> assignField p k v k = Some v"
  by (simp add: assignField_def)

lemma payload_epic_value:
  assumes "includeEpic st" and "epicFieldId st = Some f" and "f \<noteq> []" and "f \<noteq> ''__proto__''"
  shows "fieldsPayload inp st f =
           Some (if epicAsString st then StringValue (epicKey inp) else KeyObject (epicKey inp))"
  using assms by (simp add: fieldsPayload_def withEpic_def assignField_value)

lemma payload_without_epic:
  assumes "\<not> includeEpic st"
  shows "fieldsPayload inp st = withAcceptance inp st (baseFields inp)"
  using assms by (simp add: fieldsPayload_def withEpic_def split: option.splits)

lemma recordingPayloads_apply:
  "createIssue p w = (r, w1) \<Longrightarrow> recordingPayloads createIssue p (w, sent) = (r, (w1, sent @ [p]))"
  by (simp add: recordingPayloads_def)

lemma createLoop_rejected_step:
  assumes "attempt < 3" and "createIssue (fieldsPayload inp st) w = (Inl error, w1)"
    and "snd (adjustAfterRejection inp error st)"
  shows "createLoop inp createIssue attempt st lastError w =
           createLoop inp createIssue (Suc attempt) (fst (adjustAfterRejection inp error st)) (Some error) w1"
proof -
  obtain st' adjusted where a: "adjustAfterRejection inp error st = (st', adjusted)"
    by (cases "adjustAfterRejection inp error st")
  with assms(3) have "adjusted" by simp
  with assms(1,2) a show ?thesis
    by (subst createLoop.simps) simp
qed

lemma createLoop_appends:
  assumes "createLoop inp (recordingPayloads createIssue) attempt st lastError (w, sent) = (r, (w', sent'))"
  shows "\<exists>more. sent' = sent @ more \<and> (attempt < 3 \<longrightarrow> more \<noteq> [] \<and> hd more = fieldsPayload inp st)"
  using assms
proof (induction "3 - attempt" arbitrary: attempt st lastError w sent rule: less_induct)
  case less
  show ?case
  proof (cases "attempt < 3")
    case False
    with less.prems show ?thesis
      by (simp add: createLoop.simps[of _ _ attempt] split: option.splits if_splits)
  next
    case True
    obtain x w1 where c: "createIssue (fieldsPayload inp st) w = (x, w1)"
      by (cases "createIssue (fieldsPayload inp st) w")
    note rc = recordingPayloads_apply[where createIssue = createIssue and p = "fieldsPayload inp st"
        and w = w and sent = sent, OF c]
    show ?thesis
    proof (cases x)
      case (Inr issue)
      with less.prems True rc have "sent' = sent @ [fieldsPayload inp st]"
        by (auto simp add: createLoop.simps[of _ _ attempt])
      then show ?thesis by simp
    next
      case (Inl error)
      show ?thesis
      proof (cases "snd (adjustAfterRejection inp error st)")
        case False
        with less.prems True rc Inl have "sent' = sent @ [fieldsPayload inp st]"
          by (auto simp add: createLoop.simps[of _ _ attempt] split: prod.splits)
        then show ?thesis by simp
      next
        case adj: True
        have step: "createLoop inp (recordingPayloads createIssue) attempt st lastError (w, sent) =
                    createLoop inp (recordingPayloads createIssue) (Suc attempt)
                      (fst (adjustAfterRejection inp error st)) (Some error) (w1, sent @ [fieldsPayload inp st])"
          using rc Inl by (intro createLoop_rejected_step[OF True _ adj]) simp
        have "\<exists>more. sent' = (sent @ [fieldsPayload inp st]) @ more \<and>
                (Suc attempt < 3 \<longrightarrow> more \<noteq> [] \<and>
                   hd more = fieldsPayload inp (fst (adjustAfterRejection inp error st)))"
        proof (rule less.hyps)
          show "3 - Suc attempt < 3 - attempt" using True by simp
          show "createLoop inp (recordingPayloads createIssue) (Suc attempt)
                  (fst (adjustAfterRejection inp error st)) (Some error) (w1, sent @ [fieldsPayload inp st]) =
                (r, w', sent')"
            using less.prems step by simp
        qed
        then obtain more where "sent' = (sent @ [fieldsPayload inp st]) @ more" by blast
        then show ?thesis by (intro exI[of _ "fieldsPayload inp st # more"]) simp
      qed
    qed
  qed
qed

lemma next_attempt_payload:
  assumes "Suc attempt < 3" and "createIssue (fieldsPayload inp st) w = (Inl error, w1)"
    and "snd (adjustAfterRejection inp error st)"
    and "createLoop inp (recordingPayloads createIssue) attempt st lastError (w, sent) = (r, (w', sent'))"
  shows "\<exists>more. sent' = sent @ [fieldsPayload inp st, fieldsPayload inp (fst (adjustAfterRejection inp error st))] @ more"
proof -
  have a: "attempt < 3" using assms(1) by simp
  have step: "createLoop inp (recordingPayloads createIssue) attempt st lastError (w, sent) =
              createLoop inp (recordingPayloads createIssue) (Suc attempt)
                (fst (adjustAfterRejection inp error st)) (Some error) (w1, sent @ [fieldsPayload inp st])"
    using recordingPayloads_apply[where createIssue = createIssue and p = "fieldsPayload inp st"
        and w = w and sent = sent, OF assms(2)]
    by (intro createLoop_rejected_step[OF a _ assms(3)]) simp
  from createLoop_appends[OF assms(4)[unfolded step]] assms(1)
  obtain more where m: "sent' = (sent @ [fieldsPayload inp st]) @ more" "more \<noteq> []"
    "hd more = fieldsPayload inp (fst (adjustAfterRejection inp error st))" by auto
  then obtain rest where "more = fieldsPayload inp (fst (adjustAfterRejection inp error st)) # rest"
    by (cases more) auto
  with m(1) show ?thesis by (intro exI[of _ rest]) simp
qed

text \<open>
  The two moves that have a following attempt. Let an attempt that includes
  the epic under the field \<open>f\<close> be rejected with \<open>error\<close>, with a further
  attempt left, and let \<open>st'\<close> be the state after the \<open>catch\<close> block. If the
  combined messages match \<open>/string value expected/i\<close> and the epic was not sent
  as a string, the next payload has the plain epic key under the same \<open>f\<close>,
  where the rejected one had the \<open>{key}\<close> object. Otherwise, if the rejection
  has a truthy entry for \<open>f\<close> and there is a next candidate, the next payload
  carries the epic under that candidate.
\<close>

lemma rejected_epic_next_payload:
  assumes inc: "includeEpic st" and fid: "epicFieldId st = Some f" and ne: "f \<noteq> []"
    and np: "f \<noteq> ''__proto__''"
    and rej: "createIssue (fieldsPayload inp st) w = (Inl error, w1)"
    and nxt: "Suc attempt < 3"
    and run: "createLoop inp (recordingPayloads createIssue) attempt st lastError (w, sent) = (r, (w', sent'))"
    and st': "st' = fst (adjustAfterRejection inp error st)"
    and g: "g = epicFieldCandidatesOf inp ! Suc (epicFieldIndex st)"
  shows "(requiresString error st f \<longrightarrow>
            fieldsPayload inp st f = Some (KeyObject (epicKey inp)) \<and>
            epicFieldId st' = Some f \<and>
            fieldsPayload inp st' f = Some (StringValue (epicKey inp)) \<and>
            (\<exists>more. sent' = sent @ [fieldsPayload inp st, fieldsPayload inp st'] @ more)) \<and>
         (\<not> requiresString error st f \<and> truthyProperty (getProperty (fieldErrorsOf error) f) \<and>
          Suc (epicFieldIndex st) < length (epicFieldCandidatesOf inp) \<and> g \<noteq> ''__proto__'' \<longrightarrow>
            includeEpic st' \<and> epicFieldId st' = Some g \<and>
            fieldsPayload inp st' g =
              Some (if g \<in> epicStringFieldSet inp then StringValue (epicKey inp) else KeyObject (epicKey inp)) \<and>
            (\<exists>more. sent' = sent @ [fieldsPayload inp st, fieldsPayload inp st'] @ more))"
proof (intro conjI impI)
  assume rs: "requiresString error st f"
  note l = epic_to_string[OF inc fid ne rs, of inp]
  show "fieldsPayload inp st f = Some (KeyObject (epicKey inp))"
    using rs payload_epic_value[OF inc fid ne np, of inp] by (simp add: requiresString_def)
  show "epicFieldId st' = Some f" using l(3) st' by simp
  show "fieldsPayload inp st' f = Some (StringValue (epicKey inp))"
    using payload_epic_value[of st' f inp] l(2,3,5) ne np st' by simp
  show "\<exists>more. sent' = sent @ [fieldsPayload inp st, fieldsPayload inp st'] @ more"
    unfolding st' by (rule next_attempt_payload[OF nxt rej l(1) run])
next
  assume a: "\<not> requiresString error st f \<and> truthyProperty (getProperty (fieldErrorsOf error) f) \<and>
             Suc (epicFieldIndex st) < length (epicFieldCandidatesOf inp) \<and> g \<noteq> ''__proto__''"
  then have a1: "\<not> requiresString error st f" and a2: "truthyProperty (getProperty (fieldErrorsOf error) f)"
    and a3: "Suc (epicFieldIndex st) < length (epicFieldCandidatesOf inp)" and a4: "g \<noteq> ''__proto__''"
    by simp_all
  note l = epic_next_candidate[OF inc fid ne a1 a2 a3]
  have gne: "g \<noteq> []"
    using a3 g by (intro epicFieldCandidatesOf_nonempty[of g inp]) simp
  show "includeEpic st'" using l(2) st' by simp
  show "epicFieldId st' = Some g" using l(3) st' g by simp
  show "fieldsPayload inp st' g =
          Some (if g \<in> epicStringFieldSet inp then StringValue (epicKey inp) else KeyObject (epicKey inp))"
    using payload_epic_value[of st' g inp] l(2,3,5) st' g gne a4 by simp
  show "\<exists>more. sent' = sent @ [fieldsPayload inp st, fieldsPayload inp st'] @ more"
    unfolding st' by (rule next_attempt_payload[OF nxt rej l(1) run])
qed

text \<open>
  The epic is never dropped from a payload. In every run for an issue with an
  epic key, whatever the server answers, each payload that is sent carries the
  epic key, as a string or as a \<open>{key}\<close> object, under one of the epic
  candidates: the candidates can only be exhausted by the rejection of the
  third attempt, after which nothing is sent any more.
\<close>

lemma createLoop_epic_in_every_payload:
  assumes "includeEpic st" and "epicFieldIndex st \<le> attempt"
    and "epicFieldIndex st < length (epicFieldCandidatesOf inp)"
    and "epicFieldId st = Some (epicFieldCandidatesOf inp ! epicFieldIndex st)"
    and "''__proto__'' \<notin> set (epicFieldCandidatesOf inp)"
    and "createLoop inp (recordingPayloads createIssue) attempt st lastError (w, sent) = (r, (w', sent'))"
  shows "\<exists>more. sent' = sent @ more \<and>
           (\<forall>p \<in> set more. \<exists>f \<in> set (epicFieldCandidatesOf inp).
              p f = Some (StringValue (epicKey inp)) \<or> p f = Some (KeyObject (epicKey inp)))"
  using assms
proof (induction "3 - attempt" arbitrary: attempt st lastError w sent rule: less_induct)
  case less
  let ?cands = "epicFieldCandidatesOf inp"
  let ?ok = "\<lambda>p. \<exists>f \<in> set ?cands. p f = Some (StringValue (epicKey inp)) \<or> p f = Some (KeyObject (epicKey inp))"
  show ?case
  proof (cases "attempt < 3")
    case False
    with less.prems(6) have "sent' = sent"
      by (simp add: createLoop.simps[of _ _ attempt] split: option.splits if_splits)
    then show ?thesis by simp
  next
    case True
    let ?f = "?cands ! epicFieldIndex st"
    have fin: "?f \<in> set ?cands" using less.prems(3) by simp
    then have fne: "?f \<noteq> []" by (rule epicFieldCandidatesOf_nonempty)
    have fnp: "?f \<noteq> ''__proto__''" using fin less.prems(5) by auto
    have here: "?ok (fieldsPayload inp st)"
      using payload_epic_value[OF less.prems(1) less.prems(4) fne fnp, of inp] fin
      by (intro bexI[of _ ?f]) (simp_all split: if_splits)
    obtain x w1 where c: "createIssue (fieldsPayload inp st) w = (x, w1)"
      by (cases "createIssue (fieldsPayload inp st) w")
    note rc = recordingPayloads_apply[where createIssue = createIssue and p = "fieldsPayload inp st"
        and w = w and sent = sent, OF c]
    show ?thesis
    proof (cases x)
      case (Inr issue)
      with less.prems(6) True rc have "sent' = sent @ [fieldsPayload inp st]"
        by (auto simp add: createLoop.simps[of _ _ attempt])
      with here show ?thesis by simp
    next
      case (Inl error)
      show ?thesis
      proof (cases "snd (adjustAfterRejection inp error st)")
        case False
        with less.prems(6) True rc Inl have "sent' = sent @ [fieldsPayload inp st]"
          by (auto simp add: createLoop.simps[of _ _ attempt] split: prod.splits)
        with here show ?thesis by simp
      next
        case adj: True
        let ?st' = "fst (adjustAfterRejection inp error st)"
        have step: "createLoop inp (recordingPayloads createIssue) attempt st lastError (w, sent) =
                    createLoop inp (recordingPayloads createIssue) (Suc attempt)
                      ?st' (Some error) (w1, sent @ [fieldsPayload inp st])"
          using rc Inl by (intro createLoop_rejected_step[OF True _ adj]) simp
        have run': "createLoop inp (recordingPayloads createIssue) (Suc attempt)
                      ?st' (Some error) (w1, sent @ [fieldsPayload inp st]) = (r, w', sent')"
          using less.prems(6) step by simp
        from adjustAfterRejection_epic[OF less.prems(1) less.prems(3) less.prems(4), of error]
        show ?thesis
        proof
          assume inv: "includeEpic ?st' \<and> epicFieldIndex ?st' \<le> Suc (epicFieldIndex st) \<and>
                       epicFieldIndex ?st' < length ?cands \<and>
                       epicFieldId ?st' = Some (?cands ! epicFieldIndex ?st')"
          have "\<exists>more. sent' = (sent @ [fieldsPayload inp st]) @ more \<and> (\<forall>p \<in> set more. ?ok p)"
          proof (rule less.hyps)
            show "3 - Suc attempt < 3 - attempt" using True by simp
            show "includeEpic ?st'" using inv by simp
            show "epicFieldIndex ?st' \<le> Suc attempt" using inv less.prems(2) by simp
            show "epicFieldIndex ?st' < length ?cands" using inv by simp
            show "epicFieldId ?st' = Some (?cands ! epicFieldIndex ?st')" using inv by simp
            show "''__proto__'' \<notin> set ?cands" by (rule less.prems(5))
            show "createLoop inp (recordingPayloads createIssue) (Suc attempt)
                    ?st' (Some error) (w1, sent @ [fieldsPayload inp st]) = (r, w', sent')"
              by (rule run')
          qed
          then obtain more where m: "sent' = (sent @ [fieldsPayload inp st]) @ more"
            "\<forall>p \<in> set more. ?ok p" by blast
          with here show ?thesis by (intro exI[of _ "fieldsPayload inp st # more"]) simp
        next
          assume "length ?cands \<le> Suc (epicFieldIndex st)"
          with epicFieldCandidatesOf_length[of inp] less.prems(2) True have "\<not> Suc attempt < 3"
            by simp
          with run' have "sent' = sent @ [fieldsPayload inp st]"
            by (simp add: createLoop.simps[of _ _ "Suc attempt"] split: option.splits if_splits)
          with here show ?thesis by simp
        qed
      qed
    qed
  qed
qed

lemma handleJiraCreate_epic_in_every_payload:
  assumes key: "epicKey inp \<noteq> []" and np: "''__proto__'' \<notin> set (epicFieldCandidatesOf inp)"
    and run: "handleJiraCreate inp (recordingPayloads createIssue) (w, []) = (r, (w', sent))"
  shows "\<forall>p \<in> set sent. \<exists>f \<in> set (epicFieldCandidatesOf inp).
           p f = Some (StringValue (epicKey inp)) \<or> p f = Some (KeyObject (epicKey inp))"
proof -
  obtain c cs where cs: "epicFieldCandidatesOf inp = c # cs"
    using epicFieldCandidatesOf_length[of inp] by (cases "epicFieldCandidatesOf inp") auto
  have cne: "c \<noteq> []" using epicFieldCandidatesOf_nonempty[of c inp] cs by simp
  have i1: "includeEpic (initialState inp)"
    using key cne by (simp add: initialState_def cs truthyId_def Let_def)
  have i2: "epicFieldIndex (initialState inp) \<le> 0" by (simp add: initialState_def Let_def)
  have i3: "epicFieldIndex (initialState inp) < length (epicFieldCandidatesOf inp)"
    by (simp add: initialState_def Let_def cs)
  have i4: "epicFieldId (initialState inp) =
              Some (epicFieldCandidatesOf inp ! epicFieldIndex (initialState inp))"
    by (simp add: initialState_def Let_def cs)
  from createLoop_epic_in_every_payload[OF i1 i2 i3 i4 np run[unfolded handleJiraCreate_def]]
  show ?thesis by simp
qed

lemma example_candidates:
  "epicFieldCandidatesOf exampleInputs = [''customfield_10001'', ''customfield_15208'', ''customfield_10008'']"
  "acceptanceFieldCandidatesOf exampleInputs = [''customfield_10201'']"
  "epicStringFieldSet exampleInputs = {''customfield_10001'', ''customfield_10008''}"
  by (simp_all add: epicFieldCandidatesOf_def acceptanceFieldCandidatesOf_def epicStringFieldSet_def
      exampleInputs_def filterBoolean_def normalizeText_def readEnvList_def
      EPIC_FIELD_DEFAULTS_def ACCEPTANCE_FIELD_DEFAULTS_def EPIC_STRING_FIELD_DEFAULTS_def)

lemma example_initial: "initialState exampleInputs = exampleState 0 ''customfield_10001'' True True"
  by (simp add: initialState_def example_candidates exampleState_def truthyId_def)
     (simp add: exampleInputs_def)

lemma example_payloads:
  "f \<noteq> [] \<Longrightarrow> f \<noteq> ''__proto__'' \<Longrightarrow>
   fieldsPayload exampleInputs (exampleState i f s True) =
     [''summary'' \<mapsto> BaseValue (), f \<mapsto> (if s then StringValue ''CYMATE-6'' else KeyObject ''CYMATE-6'')]"
  by (simp add: fieldsPayload_def withEpic_def withAcceptance_def assignField_def exampleInputs_def
      exampleState_def)

lemma example_match:
  "test (Literal ''string value expected'') ''Operation value must be a string: String value expected''"
  "\<not> test (Literal ''string value expected'') ''Field cannot be set''"
  by code_simp+

lemma example_own_properties:
  "getProperty [] ''customfield_15208'' = UndefinedValue"
  "getProperty [(f, m)] f = OwnString m"
  by (simp_all add: getProperty_def objectPrototypeProperties_def)

text \<open>A name that \<open>Object.prototype\<close> has is read from it when the field errors
  have no entry of their own: the value is truthy and not a string.\<close>

lemma inherited_property_read:
  "getProperty [] ''constructor'' = InheritedValue"
  "truthyProperty (getProperty [] ''constructor'')"
  "combinedMessages (rejection [] []) ''constructor'' = []"
  "getProperty [(''constructor'', m)] ''constructor'' = OwnString m"
  by (simp_all add: getProperty_def objectPrototypeProperties_def combinedMessages_def
      fieldErrorsOf_def generalMessagesOf_def rejection_def)

lemma example_errors:
  "fieldErrorsOf (rejection es ms) = es"
  "generalMessagesOf (rejection es ms) = ms"
  by (simp_all add: fieldErrorsOf_def generalMessagesOf_def rejection_def)

lemma example_adjust_first:
  "i = 0 \<Longrightarrow>
   adjustAfterRejection exampleInputs (rejection [(''customfield_10001'', ''Field cannot be set'')] [])
     (exampleState i ''customfield_10001'' True True) =
     (exampleState 1 ''customfield_15208'' False True, True)"
  by (simp add: adjustAfterRejection_def adjustAcceptance_def adjustEpic_def requiresString_def
      combinedMessages_def example_errors example_own_properties example_match example_candidates
      exampleState_def Let_def del: test.simps)

lemma example_adjust_second:
  "i = 1 \<Longrightarrow>
   adjustAfterRejection exampleInputs (rejection [(''customfield_15208'', ''Field cannot be set'')] [])
     (exampleState i ''customfield_15208'' False True) =
     (exampleState 2 ''customfield_10008'' True True, True)"
  by (simp add: adjustAfterRejection_def adjustAcceptance_def adjustEpic_def requiresString_def
      combinedMessages_def example_errors example_own_properties example_match example_candidates
      exampleState_def Let_def del: test.simps)

lemma example_adjust_last:
  "i = 2 \<Longrightarrow>
   adjustAfterRejection exampleInputs (rejection [(''customfield_10008'', ''Field cannot be set'')] [])
     (exampleState i ''customfield_10008'' True True) =
     (exampleState 2 ''customfield_10008'' True False, True)"
  by (simp add: adjustAfterRejection_def adjustAcceptance_def adjustEpic_def requiresString_def
      combinedMessages_def example_errors example_own_properties example_match example_candidates
      exampleState_def Let_def del: test.simps)

lemma example_adjust_string:
  "adjustAfterRejection exampleInputs
     (rejection [] [''Operation value must be a string: String value expected''])
     (exampleState i ''customfield_15208'' False True) = (exampleState i ''customfield_15208'' True True, True)"
  by (simp add: adjustAfterRejection_def adjustAcceptance_def adjustEpic_def requiresString_def
      combinedMessages_def example_errors example_own_properties example_match example_candidates
      exampleState_def Let_def del: test.simps)

lemma example_server:
  "exampleServer [''summary'' \<mapsto> BaseValue (), ''customfield_10001'' \<mapsto> StringValue ''CYMATE-6''] w =
     (Inl (rejection [(''customfield_10001'', ''Field cannot be set'')] []), w)"
  "exampleServer [''summary'' \<mapsto> BaseValue (), ''customfield_15208'' \<mapsto> KeyObject ''CYMATE-6''] w =
     (Inl (rejection [] [''Operation value must be a string: String value expected'']), w)"
  "exampleServer [''summary'' \<mapsto> BaseValue (), ''customfield_15208'' \<mapsto> StringValue ''CYMATE-6''] w = (Inr 1, w)"
  by (simp_all add: exampleServer_def)

lemma rejecting_server:
  "rejectingServer [''summary'' \<mapsto> BaseValue (), ''customfield_10001'' \<mapsto> v] w =
     (Inl (rejection [(''customfield_10001'', ''Field cannot be set'')] []), w)"
  "rejectingServer [''summary'' \<mapsto> BaseValue (), ''customfield_15208'' \<mapsto> v] w =
     (Inl (rejection [(''customfield_15208'', ''Field cannot be set'')] []), w)"
  "rejectingServer [''summary'' \<mapsto> BaseValue (), ''customfield_10008'' \<mapsto> v] w =
     (Inl (rejection [(''customfield_10008'', ''Field cannot be set'')] []), w)"
  "rejectingServer [''summary'' \<mapsto> BaseValue ()] w = (Inr 1, w)"
  by (simp_all add: rejectingServer_def EPIC_FIELD_DEFAULTS_def)

text \<open>The first server: the second candidate is tried as an object, then as a
  string, on the general message alone.\<close>

lemma example_run_third:
  "a = 2 \<Longrightarrow> i = 1 \<Longrightarrow>
   createLoop exampleInputs (recordingPayloads exampleServer) a
     (exampleState i ''customfield_15208'' True True) le ((), sent) =
     (Inr 1, ((), sent @ [[''summary'' \<mapsto> BaseValue (), ''customfield_15208'' \<mapsto> StringValue ''CYMATE-6'']]))"
  by (subst createLoop.simps) (simp add: example_payloads recordingPayloads_def example_server)

lemma example_run_second:
  "a = 1 \<Longrightarrow> i = 1 \<Longrightarrow>
   createLoop exampleInputs (recordingPayloads exampleServer) a
     (exampleState i ''customfield_15208'' False True) le ((), sent) =
     (Inr 1, ((), sent @ [[''summary'' \<mapsto> BaseValue (), ''customfield_15208'' \<mapsto> KeyObject ''CYMATE-6''],
                          [''summary'' \<mapsto> BaseValue (), ''customfield_15208'' \<mapsto> StringValue ''CYMATE-6'']]))"
  by (subst createLoop.simps)
     (simp add: example_payloads recordingPayloads_def example_server example_adjust_string
        example_run_third)

lemma example_string_retry:
  "handleJiraCreate exampleInputs (recordingPayloads exampleServer) ((), []) =
     (Inr 1, ((), [[''summary'' \<mapsto> BaseValue (), ''customfield_10001'' \<mapsto> StringValue ''CYMATE-6''],
                   [''summary'' \<mapsto> BaseValue (), ''customfield_15208'' \<mapsto> KeyObject ''CYMATE-6''],
                   [''summary'' \<mapsto> BaseValue (), ''customfield_15208'' \<mapsto> StringValue ''CYMATE-6'']]))"
  unfolding handleJiraCreate_def example_initial
  by (subst createLoop.simps)
     (simp add: example_payloads recordingPayloads_def example_server example_adjust_first
        example_run_second)

lemma rejecting_run_after:
  "a = 3 \<Longrightarrow>
   createLoop exampleInputs (recordingPayloads rejectingServer) a st
     (Some (rejection es ms)) ((), sent) = (Inl (rejection es ms), ((), sent))"
  by (subst createLoop.simps) (simp add: rejection_def)

lemma rejecting_run_third:
  "a = 2 \<Longrightarrow> i = 2 \<Longrightarrow>
   createLoop exampleInputs (recordingPayloads rejectingServer) a
     (exampleState i ''customfield_10008'' True True) le ((), sent) =
     (Inl (rejection [(''customfield_10008'', ''Field cannot be set'')] []),
      ((), sent @ [[''summary'' \<mapsto> BaseValue (), ''customfield_10008'' \<mapsto> StringValue ''CYMATE-6'']]))"
  by (subst createLoop.simps)
     (simp add: example_payloads recordingPayloads_def rejecting_server example_adjust_last
        rejecting_run_after)

lemma rejecting_run_second:
  "a = 1 \<Longrightarrow> i = 1 \<Longrightarrow>
   createLoop exampleInputs (recordingPayloads rejectingServer) a
     (exampleState i ''customfield_15208'' False True) le ((), sent) =
     (Inl (rejection [(''customfield_10008'', ''Field cannot be set'')] []),
      ((), sent @ [[''summary'' \<mapsto> BaseValue (), ''customfield_15208'' \<mapsto> KeyObject ''CYMATE-6''],
                   [''summary'' \<mapsto> BaseValue (), ''customfield_10008'' \<mapsto> StringValue ''CYMATE-6'']]))"
  by (subst createLoop.simps)
     (simp add: example_payloads recordingPayloads_def rejecting_server example_adjust_second
        rejecting_run_third)

text \<open>
  Claim C3, at the failing input. The issue has the epic key \<open>CYMATE-6\<close>, the
  epic candidates are the three built-in ones, and the server rejects every
  payload that carries an epic field, with an error for that field; it would
  accept the base fields alone. Three payloads are sent, each with the epic
  under one of the candidates; the rejection of the third exhausts the
  candidates, and the call ends with that rejection: a payload without the
  epic is not sent.
\<close>

theorem exhausted_epic_candidates_end_the_call:
  "handleJiraCreate exampleInputs (recordingPayloads rejectingServer) ((), []) =
     (Inl (rejection [(''customfield_10008'', ''Field cannot be set'')] []),
      ((), [[''summary'' \<mapsto> BaseValue (), ''customfield_10001'' \<mapsto> StringValue ''CYMATE-6''],
            [''summary'' \<mapsto> BaseValue (), ''customfield_15208'' \<mapsto> KeyObject ''CYMATE-6''],
            [''summary'' \<mapsto> BaseValue (), ''customfield_10008'' \<mapsto> StringValue ''CYMATE-6'']]))
   \<and> rejectingServer (baseFields exampleInputs) () = (Inr 1, ())
   \<and> epicFieldCandidatesOf exampleInputs = [''customfield_10001'', ''customfield_15208'', ''customfield_10008'']"
proof -
  have first: "handleJiraCreate exampleInputs (recordingPayloads rejectingServer) ((), []) =
     (Inl (rejection [(''customfield_10008'', ''Field cannot be set'')] []),
      ((), [[''summary'' \<mapsto> BaseValue (), ''customfield_10001'' \<mapsto> StringValue ''CYMATE-6''],
            [''summary'' \<mapsto> BaseValue (), ''customfield_15208'' \<mapsto> KeyObject ''CYMATE-6''],
            [''summary'' \<mapsto> BaseValue (), ''customfield_10008'' \<mapsto> StringValue ''CYMATE-6'']]))"
    unfolding handleJiraCreate_def example_initial
    by (subst createLoop.simps)
       (simp add: example_payloads recordingPayloads_def rejecting_server example_adjust_first
          rejecting_run_second)
  have base: "rejectingServer (baseFields exampleInputs) () = (Inr 1, ())"
    by (simp add: exampleInputs_def rejecting_server)
  from first base example_candidates(1) show ?thesis by simp
qed

end
